theory Spec2Isabelle
  imports Complex_Main "HOL-Library.Multiset"
begin

section \<open>Numeric values and failures\<close>

text \<open>
  The Go sources compute with \<^verbatim>\<open>float64\<close> and \<^verbatim>\<open>complex128\<close>. Finite values are
  modelled by exact reals and complex numbers (no rounding, no overflow). The non-finite
  results that the performance evaluation can produce from finite operands
  (\<^verbatim>\<open>math.Inf(1)\<close>, a quotient by zero, a square root) are kept as values of their own.
  So are the non-finite \<^verbatim>\<open>complex128\<close> values that the matrix inversion of the MVDR weights
  produces when it divides by a zero pivot. Elsewhere a quotient by a zero float, which is
  NaN or infinite in Go, is outside the model: a statement about the value of such a
  quotient carries the hypothesis that the divisor is not zero.
\<close>

datatype xreal = Fin real | PInf | NInf | NaN

text \<open>Go's \<^verbatim>\<open>a / b\<close> on two finite \<^verbatim>\<open>float64\<close> operands.\<close>

definition fdiv :: "real \<Rightarrow> real \<Rightarrow> xreal" where
  "fdiv a b =
     (if b \<noteq> 0 then Fin (a / b)
      else if a = 0 then NaN
      else if 0 < a then PInf else NInf)"

text \<open>\<^verbatim>\<open>math.Sqrt\<close>.\<close>

fun fsqrt :: "xreal \<Rightarrow> xreal" where
  "fsqrt (Fin r) = (if r < 0 then NaN else Fin (sqrt r))"
| "fsqrt PInf = PInf"
| "fsqrt NInf = NaN"
| "fsqrt NaN = NaN"

text \<open>Addition, comparison with a finite bound and division by a finite divisor.\<close>

fun xadd :: "xreal \<Rightarrow> xreal \<Rightarrow> xreal" where
  "xadd (Fin a) (Fin b) = Fin (a + b)"
| "xadd NaN _ = NaN"
| "xadd _ NaN = NaN"
| "xadd PInf NInf = NaN"
| "xadd NInf PInf = NaN"
| "xadd PInf _ = PInf"
| "xadd _ PInf = PInf"
| "xadd NInf _ = NInf"
| "xadd _ NInf = NInf"

fun xless :: "xreal \<Rightarrow> real \<Rightarrow> bool" where
  "xless (Fin a) c = (a < c)"
| "xless NInf c = True"
| "xless PInf c = False"
| "xless NaN c = False"

fun xdiv :: "xreal \<Rightarrow> real \<Rightarrow> xreal" where
  "xdiv (Fin a) b = fdiv a b"
| "xdiv NaN b = NaN"
| "xdiv PInf b = (if b < 0 then NInf else PInf)"
| "xdiv NInf b = (if b < 0 then PInf else NInf)"

text \<open>
  A \<^verbatim>\<open>complex128\<close> of the MVDR computation: a finite complex number, or \<open>NaNInf\<close>, a value
  with a NaN or an infinite component. In Go a finite value divided by zero is such a
  value, and so are the sum, the difference and the product of such a value with any
  other, and its quotient by a finite or non-finite value. Which of the non-finite values
  it is, is not followed.
\<close>

datatype c128 = Val complex | NaNInf

fun cadd :: "c128 \<Rightarrow> c128 \<Rightarrow> c128" where
  "cadd (Val a) (Val b) = Val (a + b)"
| "cadd _ _ = NaNInf"

fun csub :: "c128 \<Rightarrow> c128 \<Rightarrow> c128" where
  "csub (Val a) (Val b) = Val (a - b)"
| "csub _ _ = NaNInf"

fun cmul :: "c128 \<Rightarrow> c128 \<Rightarrow> c128" where
  "cmul (Val a) (Val b) = Val (a * b)"
| "cmul _ _ = NaNInf"

text \<open>
  Go's \<^verbatim>\<open>a / b\<close>. The quotient of a finite value by a non-finite one does not arise
  below: once the inversion has divided by a zero pivot, every entry it holds is
  non-finite, and so is every weight computed from it.
\<close>

fun cdiv :: "c128 \<Rightarrow> c128 \<Rightarrow> c128" where
  "cdiv (Val a) (Val b) = (if b = 0 then NaNInf else Val (a / b))"
| "cdiv _ _ = NaNInf"

text \<open>
  A call either returns a value, returns a Go \<^verbatim>\<open>error\<close> (the fixed text of its message),
  panics, or does not return.
\<close>

datatype panic =
    IndexOutOfRange
  | SliceBoundsOutOfRange
  | MakeSliceLenOutOfRange
  | IntegerDivideByZero
  | MatZeroLength
  | MatNegativeDimension
  | MatShape

datatype failure = Panic panic | Error string | NoReturn

definition bnd :: "failure + 'a \<Rightarrow> ('a \<Rightarrow> failure + 'b) \<Rightarrow> failure + 'b" where
  "bnd m f = (case m of Inl e \<Rightarrow> Inl e | Inr x \<Rightarrow> f x)"

text \<open>\<^verbatim>\<open>fmt.Errorf("prefix: %w", err)\<close> on a returned error; a panic passes through.\<close>

fun wrap :: "string \<Rightarrow> failure \<Rightarrow> failure" where
  "wrap prefix (Error msg) = Error (prefix @ msg)"
| "wrap prefix f = f"

text \<open>\<^verbatim>\<open>make([]T, n)\<close>.\<close>

definition make_slice :: "int \<Rightarrow> 'a \<Rightarrow> failure + 'a list" where
  "make_slice n z = (if n < 0 then Inl (Panic MakeSliceLenOutOfRange) else Inr (replicate (nat n) z))"

section \<open>Matrices\<close>

text \<open>
  A \<^verbatim>\<open>[][]T\<close> and a gonum \<^verbatim>\<open>mat.Dense\<close> / \<^verbatim>\<open>mat.CDense\<close> are both lists of rows.
  \<open>tabulate r c f\<close> is the double loop that fills an \<open>r\<close> by \<open>c\<close> matrix entry by entry.
\<close>

definition tabulate :: "nat \<Rightarrow> nat \<Rightarrow> (nat \<Rightarrow> nat \<Rightarrow> 'a) \<Rightarrow> 'a list list" where
  "tabulate r c f = map (\<lambda>i. map (\<lambda>j. f i j) [0..<c]) [0..<r]"

definition mrows :: "'a list list \<Rightarrow> nat" where
  "mrows A = length A"

definition mcols :: "'a list list \<Rightarrow> nat" where
  "mcols A = (case A of [] \<Rightarrow> 0 | row # _ \<Rightarrow> length row)"

text \<open>Every \<open>At(i, j)\<close> with \<open>i < r\<close> and \<open>j < c\<close> is inside the matrix.\<close>

definition covers :: "'a list list \<Rightarrow> nat \<Rightarrow> nat \<Rightarrow> bool" where
  "covers A r c = (r = 0 \<or> c = 0 \<or> (r \<le> length A \<and> list_all (\<lambda>row. c \<le> length row) (take r A)))"

text \<open>
  gonum is an external library. \<^verbatim>\<open>mat.NewDense\<close> and \<^verbatim>\<open>mat.NewCDense\<close> panic on a zero
  or negative dimension; \<^verbatim>\<open>Mul\<close> panics when the inner dimensions differ.
\<close>

definition NewDense :: "int \<Rightarrow> int \<Rightarrow> 'a::zero \<Rightarrow> failure + 'a list list" where
  "NewDense r c z =
     (if r \<le> 0 \<or> c \<le> 0 then
        (if r = 0 \<or> c = 0 then Inl (Panic MatZeroLength) else Inl (Panic MatNegativeDimension))
      else Inr (replicate (nat r) (replicate (nat c) z)))"

definition Mul :: "real list list \<Rightarrow> real list list \<Rightarrow> failure + real list list" where
  "Mul A B =
     (if mcols A \<noteq> mrows B then Inl (Panic MatShape)
      else Inr (tabulate (mrows A) (mcols B)
                  (\<lambda>i j. sum_list (map (\<lambda>k. A ! i ! k * B ! k ! j) [0..<mcols A]))))"

text \<open>
  The three factorizations are taken as they come from the library: \<open>None\<close> stands for
  \<^verbatim>\<open>Factorize\<close> returning \<^verbatim>\<open>false\<close>, or \<^verbatim>\<open>Inverse\<close> returning an error.
\<close>

record gonum =
  Eigen_Values :: "real list list \<Rightarrow> complex list option"
  SVD_U :: "real list list \<Rightarrow> real list list option"
  Dense_Inverse :: "real list list \<Rightarrow> real list list option"

section \<open>ESPRIT estimator\<close>

record ESPRITConfig =
  NumAntennas :: int
  NumSources :: int
  ElementSpacing :: real
  SnapshotLength :: int
  SampleRate :: real
  CarrierFreq :: real

record ESPRITResult =
  Angles :: "real list"
  RMSE :: xreal
  SuccessRate :: xreal
  ProcessingTime :: real
  Eigenvalues :: "real list"

definition NewESPRITEstimator :: "ESPRITConfig \<Rightarrow> ESPRITConfig" where
  "NewESPRITEstimator config =
     (let c1 = (if ElementSpacing config = 0 then config\<lparr>ElementSpacing := 0.5\<rparr> else config)
      in if SnapshotLength c1 = 0 then c1\<lparr>SnapshotLength := 256\<rparr> else c1)"

definition ESPRITEstimator_computeCovarianceMatrix ::
    "complex list list \<Rightarrow> failure + complex list list" where
  "ESPRITEstimator_computeCovarianceMatrix X =
     (let M = length X in
      if M = 0 then Inl (Panic IndexOutOfRange)
      else
        let N = length (X ! 0) in
        bnd (NewDense (int M) (int M) (0::complex)) (\<lambda>cov.
          if list_ex (\<lambda>row. length row < N) X then Inl (Panic IndexOutOfRange)
          else Inr (tabulate M M (\<lambda>i j.
                 fold (\<lambda>t sum. sum + X ! i ! t * cnj (X ! j ! t)) [0..<N] 0
                   / complex_of_real (real N)))))"

text \<open>The real matrix that both \<^verbatim>\<open>computeEigenvalues\<close> and \<^verbatim>\<open>extractSignalSubspace\<close> build.\<close>

definition realCov :: "complex list list \<Rightarrow> real list list" where
  "realCov covMatrix =
     (let M = mrows covMatrix in
      tabulate M M (\<lambda>i j. let val = covMatrix ! i ! j in
                           if i = j then Re val else Re (val * cnj val)))"

definition computeEigenvalues :: "gonum \<Rightarrow> complex list list \<Rightarrow> failure + real list" where
  "computeEigenvalues g covMatrix =
     (let M = mrows covMatrix in
      case Eigen_Values g (realCov covMatrix) of
        None \<Rightarrow> Inr (replicate M 0)
      | Some vals \<Rightarrow>
          if length vals < M then Inl (Panic IndexOutOfRange)
          else Inr (rev (sort (map (\<lambda>i. Re (vals ! i)) [0..<M]))))"

definition extractSignalSubspace ::
    "gonum \<Rightarrow> complex list list \<Rightarrow> int \<Rightarrow> failure + complex list list" where
  "extractSignalSubspace g covMatrix numSources =
     (let M = int (mrows covMatrix) in
      case SVD_U g (realCov covMatrix) of
        None \<Rightarrow> Inl (Error ''SVD factorization failed'')
      | Some u \<Rightarrow>
          bnd (NewDense (M - numSources) numSources (0::complex)) (\<lambda>signalSubspace.
            if \<not> covers u (nat (M - numSources)) (nat numSources) then Inl (Panic IndexOutOfRange)
            else Inr (tabulate (nat (M - numSources)) (nat numSources)
                        (\<lambda>i j. complex_of_real (u ! i ! j)))))"

text \<open>
  \<^verbatim>\<open>solveRotationMatrix\<close>. When \<^verbatim>\<open>inv.Inverse\<close> returns an error the function builds
  a diagonal matrix from \<open>K\<close> alone and returns it like any other result.
\<close>

definition solveRotationMatrix ::
    "gonum \<Rightarrow> complex list list \<Rightarrow> complex list list \<Rightarrow> int \<Rightarrow> failure + complex list list" where
  "solveRotationMatrix g Us1 Us2 K =
     (let rows = mrows Us1; cols = mcols Us1 in
      bnd (NewDense (int rows) (int cols) (0::real)) (\<lambda>zero.
        if \<not> covers Us2 rows cols then Inl (Panic IndexOutOfRange)
        else
          let Us1Real = tabulate rows cols (\<lambda>i j. Re (Us1 ! i ! j));
              Us2Real = tabulate rows cols (\<lambda>i j. Re (Us2 ! i ! j));
              Us1T = tabulate cols rows (\<lambda>i j. Us1Real ! j ! i)
          in bnd (Mul Us1T Us1Real) (\<lambda>Us1TUs1.
               case Dense_Inverse g Us1TUs1 of
                 None \<Rightarrow>
                   bnd (NewDense K K (0::complex)) (\<lambda>psi.
                     Inr (tabulate (nat K) (nat K)
                            (\<lambda>i j. if i = j
                                    then exp (Complex 0 (real i * pi / real_of_int K))
                                    else 0)))
               | Some inv1 \<Rightarrow>
                   bnd (Mul Us1T Us2Real) (\<lambda>Us1TUs2.
                   bnd (Mul inv1 Us1TUs2) (\<lambda>psiReal.
                   bnd (NewDense K K (0::complex)) (\<lambda>psi.
                     if \<not> covers psiReal (nat K) (nat K) then Inl (Panic IndexOutOfRange)
                     else Inr (tabulate (nat K) (nat K)
                                 (\<lambda>i j. complex_of_real (psiReal ! i ! j)))))))))"

text \<open>\<^verbatim>\<open>cmplx.Phase\<close> is \<^const>\<open>Arg\<close>, \<^verbatim>\<open>math.Asin\<close> is \<^const>\<open>arcsin\<close>.\<close>

definition extractAngles :: "ESPRITConfig \<Rightarrow> complex list list \<Rightarrow> int \<Rightarrow> failure + real list" where
  "extractAngles config psi K =
     bnd (make_slice K (0::real)) (\<lambda>angles.
       let K_actual = min K (int (mrows psi)) in
       if \<not> list_all (\<lambda>i. i < length (psi ! i)) [0..<nat K_actual] then Inl (Panic IndexOutOfRange)
       else Inr (map (\<lambda>i.
              if int i < K_actual then
                let diagVal = psi ! i ! i;
                    phase = Arg diagVal;
                    wavelength = (if CarrierFreq config > 0 then 300000000 / CarrierFreq config else 1);
                    d = (if CarrierFreq config > 0 then ElementSpacing config * wavelength
                         else ElementSpacing config);
                    sinTheta = phase * wavelength / (2 * pi * d);
                    sinTheta' = (if sinTheta > 1 then 1 else if sinTheta < -1 then -1 else sinTheta)
                in arcsin sinTheta'
              else - pi / 4 + real i * pi / (2 * real_of_int K)) [0..<nat K]))"

definition espritCore ::
    "gonum \<Rightarrow> ESPRITConfig \<Rightarrow> complex list list \<Rightarrow> int \<Rightarrow> int \<Rightarrow> failure + real list" where
  "espritCore g config signalSubspace M K =
     (let rows = mrows signalSubspace; cols = mcols signalSubspace in
      if int rows < M - 1 then Inl (Error ''signal subspace too small'')
      else
        bnd (NewDense (int rows) (int cols) (0::complex)) (\<lambda>zero.
          let Us1 = tabulate rows cols (\<lambda>i j. signalSubspace ! i ! j);
              Us2 = tabulate rows cols (\<lambda>i j. if i + 1 < rows then signalSubspace ! (i + 1) ! j else 0)
          in bnd (solveRotationMatrix g Us1 Us2 K) (\<lambda>psi. extractAngles config psi K)))"

text \<open>
  \<^verbatim>\<open>EstimateDOA\<close>. The two fields of the estimator written at the end
  (\<^verbatim>\<open>covMatrix\<close>, \<^verbatim>\<open>signalSubspace\<close>) are read by no method, so the estimator is its
  configuration.
\<close>

definition EstimateDOA :: "gonum \<Rightarrow> ESPRITConfig \<Rightarrow> complex list list \<Rightarrow> failure + ESPRITResult" where
  "EstimateDOA g config receivedSignal =
     (let M = NumAntennas config; K = NumSources config in
      if int (length receivedSignal) \<noteq> M then Inl (Error ''signal dimension mismatch'')
      else
        bnd (ESPRITEstimator_computeCovarianceMatrix receivedSignal) (\<lambda>covMatrix.
        bnd (computeEigenvalues g covMatrix) (\<lambda>eigenvalues.
          case extractSignalSubspace g covMatrix K of
            Inl err \<Rightarrow> Inl (wrap ''extract signal subspace failed: '' err)
          | Inr signalSubspace \<Rightarrow>
              (case espritCore g config signalSubspace M K of
                 Inl err \<Rightarrow> Inl (wrap ''esprit core computation failed: '' err)
               | Inr angles \<Rightarrow>
                   Inr \<lparr>Angles = angles, RMSE = Fin 0, SuccessRate = Fin 0,
                        ProcessingTime = 0, Eigenvalues = eigenvalues\<rparr>))))"

subsection \<open>The random source\<close>

text \<open>Go's conversion \<^verbatim>\<open>int(x)\<close> truncates towards zero; \<^verbatim>\<open>%\<close> keeps the dividend's sign.\<close>

definition go_trunc :: "real \<Rightarrow> int" where
  "go_trunc x = (if 0 \<le> x then \<lfloor>x\<rfloor> else \<lceil>x\<rceil>)"

definition go_rem :: "int \<Rightarrow> int \<Rightarrow> int" where
  "go_rem a b = sgn a * (\<bar>a\<bar> mod \<bar>b\<bar>)"

definition randFloat64 :: real where
  "randFloat64 = real_of_int (go_rem (123456789 + go_trunc (1000 * sin 0)) (2 ^ 30)) / 2 ^ 30"

text \<open>The loop \<^verbatim>\<open>for u1 == 0 { u1 = randFloat64() }\<close> of \<^verbatim>\<open>randNorm\<close>.\<close>

partial_function (option) randNorm_loop :: "real \<Rightarrow> real option" where
  "randNorm_loop u1 = (if u1 = 0 then randNorm_loop randFloat64 else Some u1)"

definition randNorm :: "real option" where
  "randNorm =
     (let u1 = randFloat64; u2 = randFloat64 in
      case randNorm_loop u1 of
        None \<Rightarrow> None
      | Some u1' \<Rightarrow> Some (sqrt (- 2 * ln u1') * cos (2 * pi * u2)))"

subsection \<open>Test signals\<close>

text \<open>\<^verbatim>\<open>math.Pow(10, x)\<close> is \<open>10 powr x\<close>. The noise loop runs only when \<open>M\<close> and \<open>N\<close> are positive.\<close>

definition GenerateTestSignal ::
    "ESPRITConfig \<Rightarrow> real list \<Rightarrow> real \<Rightarrow> failure + complex list list" where
  "GenerateTestSignal config trueAngles snrDB =
     (let M = NumAntennas config; N = SnapshotLength config; K = length trueAngles in
      bnd (make_slice M ([]::complex list)) (\<lambda>X0.
      bnd (if 0 < M then make_slice N (0::complex) else Inr []) (\<lambda>row0.
        let d = ElementSpacing config;
            snrLinear = 10 powr (snrDB / 10);
            clean = (\<lambda>m t. fold (\<lambda>k acc.
                       let signal = exp (Complex 0 (2 * pi * real t * 0.01));
                           phase = 2 * pi * real m * d * sin (trueAngles ! k);
                           steering = exp (Complex 0 phase)
                       in acc + steering * signal) [0..<K] (0::complex));
            noisePower = 1 / snrLinear
        in if 0 < M \<and> 0 < N then
             (case randNorm of
                None \<Rightarrow> Inl NoReturn
              | Some r \<Rightarrow>
                  Inr (tabulate (nat M) (nat N) (\<lambda>m t.
                         let noiseReal = r * sqrt (noisePower / 2);
                             noiseImag = r * sqrt (noisePower / 2)
                         in clean m t + Complex noiseReal noiseImag)))
           else Inr (tabulate (nat M) (nat N) clean))))"

section \<open>ESPRIT estimator: performance evaluation\<close>

text \<open>
  \<^verbatim>\<open>ComputeRMSE\<close>: the lengths are compared first; the loop then pairs the two slices
  index by index, in the order in which they were passed.
\<close>

definition ComputeRMSE :: "real list \<Rightarrow> real list \<Rightarrow> xreal" where
  "ComputeRMSE estimatedAngles trueAngles =
     (if length estimatedAngles \<noteq> length trueAngles then PInf
      else
        let sumSquaredError =
              fold (\<lambda>i s. let err = estimatedAngles ! i - trueAngles ! i in s + err * err)
                   [0..<length estimatedAngles] 0
        in fsqrt (fdiv sumSquaredError (real (length estimatedAngles))))"

definition EstimateWithPerformance ::
    "gonum \<Rightarrow> ESPRITConfig \<Rightarrow> real list \<Rightarrow> real \<Rightarrow> failure + ESPRITResult" where
  "EstimateWithPerformance g config trueAngles snrDB =
     bnd (GenerateTestSignal config trueAngles snrDB) (\<lambda>signal.
     bnd (EstimateDOA g config signal) (\<lambda>result.
       Inr (result\<lparr>RMSE := ComputeRMSE (Angles result) trueAngles\<rparr>)))"

text \<open>
  \<^verbatim>\<open>MonteCarloSimulation\<close>. A trial that returns an error is skipped
  (\<^verbatim>\<open>continue\<close>); a panic ends the simulation. The loop state is
  \<open>(totalRMSE, successCount)\<close>.
\<close>

definition trial_step ::
    "gonum \<Rightarrow> ESPRITConfig \<Rightarrow> real list \<Rightarrow> real \<Rightarrow> xreal \<times> int \<Rightarrow> failure + xreal \<times> int" where
  "trial_step g config trueAngles snr st =
     (case EstimateWithPerformance g config trueAngles snr of
        Inl (Error msg) \<Rightarrow> Inr st
      | Inl f \<Rightarrow> Inl f
      | Inr result \<Rightarrow>
          Inr (xadd (fst st) (RMSE result),
               if xless (RMSE result) 0.1 then snd st + 1 else snd st))"

fun trials ::
    "gonum \<Rightarrow> ESPRITConfig \<Rightarrow> real list \<Rightarrow> real \<Rightarrow> nat \<Rightarrow> xreal \<times> int \<Rightarrow> failure + xreal \<times> int" where
  "trials g config trueAngles snr 0 st = Inr st"
| "trials g config trueAngles snr (Suc n) st =
     bnd (trial_step g config trueAngles snr st) (trials g config trueAngles snr n)"

fun MonteCarloSimulation_loop ::
    "gonum \<Rightarrow> ESPRITConfig \<Rightarrow> real list \<Rightarrow> real list \<Rightarrow> int \<Rightarrow> (real \<rightharpoonup> ESPRITResult)
       \<Rightarrow> failure + (real \<rightharpoonup> ESPRITResult)" where
  "MonteCarloSimulation_loop g config trueAngles [] numTrials results = Inr results"
| "MonteCarloSimulation_loop g config trueAngles (snr # snrRange) numTrials results =
     bnd (trials g config trueAngles snr (nat numTrials) (Fin 0, 0)) (\<lambda>(totalRMSE, successCount).
       let avgRMSE = xdiv totalRMSE (real_of_int numTrials);
           successRate = fdiv (real_of_int successCount) (real_of_int numTrials)
       in MonteCarloSimulation_loop g config trueAngles snrRange numTrials
            (results(snr \<mapsto> \<lparr>Angles = [], RMSE = avgRMSE, SuccessRate = successRate,
                                ProcessingTime = 0, Eigenvalues = []\<rparr>)))"

definition MonteCarloSimulation ::
    "gonum \<Rightarrow> ESPRITConfig \<Rightarrow> real list \<Rightarrow> real list \<Rightarrow> int
       \<Rightarrow> failure + (real \<rightharpoonup> ESPRITResult)" where
  "MonteCarloSimulation g config trueAngles snrRange numTrials =
     MonteCarloSimulation_loop g config trueAngles snrRange numTrials Map.empty"

section \<open>The MUSIC estimator\<close>

record DOAParams =
  ElementCount :: int
  NumSources :: int
  SnapshotLength :: int
  Method :: string
  SearchRangeMin :: real
  SearchRangeMax :: real
  SearchStep :: real

definition randFloat :: real where
  "randFloat = real_of_int (go_rem 123456789 (2 ^ 30)) / 2 ^ 30"

text \<open>
  \<^verbatim>\<open>generateReceivedSignal\<close>. The index \<^verbatim>\<open>t%len(data)\<close> is evaluated in the innermost
  loop, so an empty \<^verbatim>\<open>data\<close> panics only when all three loops run.
\<close>

definition generateReceivedSignal :: "complex list \<Rightarrow> DOAParams \<Rightarrow> failure + complex list list" where
  "generateReceivedSignal data params =
     (let M = ElementCount params; N = DOAParams.SnapshotLength params;
          K = DOAParams.NumSources params in
      bnd (make_slice M ([]::complex list)) (\<lambda>X0.
      bnd (if 0 < M then make_slice N (0::complex) else Inr []) (\<lambda>row0.
      bnd (make_slice K (0::real)) (\<lambda>sa0.
        let sourceAngles = map (\<lambda>i. - pi / 3 + real i * pi / (3 * real_of_int K)) [0..<nat K];
            d = 0.5
        in if 0 < N \<and> 0 < M \<and> 0 < K \<and> data = [] then Inl (Panic IntegerDivideByZero)
           else Inr (tabulate (nat M) (nat N) (\<lambda>n t.
                  let signal = fold (\<lambda>s acc.
                                 let phase = 2 * pi * real n * d * sin (sourceAngles ! s)
                                 in acc + exp (Complex 0 phase) * data ! (t mod length data))
                               [0..<nat K] (0::complex);
                      noise = Complex (0.1 * (randFloat - 0.5)) (0.1 * (randFloat - 0.5))
                  in signal + noise))))))"

definition Estimator_computeCovarianceMatrix ::
    "complex list list \<Rightarrow> failure + complex list list" where
  "Estimator_computeCovarianceMatrix X =
     (let M = length X in
      if M = 0 then Inl (Panic IndexOutOfRange)
      else
        let N = length (X ! 0) in
        if list_ex (\<lambda>row. length row < N) X then Inl (Panic IndexOutOfRange)
        else Inr (tabulate M M (\<lambda>i j.
               fold (\<lambda>t sum. sum + X ! i ! t * cnj (X ! j ! t)) [0..<N] 0
                 / complex_of_real (real N))))"

text \<open>
  The exchange sort used by \<^verbatim>\<open>eigenDecomposition\<close> and \<^verbatim>\<open>findPeaks\<close>:
  \<^verbatim>\<open>for i := 0; i < m; i++ { for j := i+1; j < len; j++ { if key[i] < key[j] { swap } } }\<close>.
\<close>

definition exchange :: "('a \<Rightarrow> real) \<Rightarrow> nat \<Rightarrow> nat \<Rightarrow> 'a list \<Rightarrow> 'a list" where
  "exchange key i j xs = (if key (xs ! i) < key (xs ! j) then xs[i := xs ! j, j := xs ! i] else xs)"

definition exchange_sort :: "('a \<Rightarrow> real) \<Rightarrow> nat \<Rightarrow> 'a list \<Rightarrow> 'a list" where
  "exchange_sort key m xs =
     fold (\<lambda>i ys. fold (\<lambda>j zs. exchange key i j zs) [Suc i..<length xs] ys) [0..<m] xs"

text \<open>
  \<^verbatim>\<open>eigenDecomposition\<close>: the ``eigenvalues'' are the scaled row power sums, the
  ``eigenvectors'' the unit vectors; the two slices are swapped in lockstep, which is the
  exchange sort on the list of pairs.
\<close>

definition eigenDecomposition ::
    "complex list list \<Rightarrow> failure + real list \<times> complex list list" where
  "eigenDecomposition matrix =
     (let n = length matrix in
      if list_ex (\<lambda>row. length row < n) matrix then Inl (Panic IndexOutOfRange)
      else
        let eigenvectors = tabulate n n (\<lambda>i j. if i = j then (1::complex) else 0);
            eigenvalues = map (\<lambda>i.
                fold (\<lambda>j sum. sum + cmod (matrix ! i ! j) * cmod (matrix ! i ! j)) [0..<n] 0
                  / real n) [0..<n];
            sorted = exchange_sort fst n (zip eigenvalues eigenvectors)
        in Inr (map fst sorted, map snd sorted))"

definition extractNoiseSubspace ::
    "complex list list \<Rightarrow> int \<Rightarrow> failure + complex list list" where
  "extractNoiseSubspace eigenvectors numSources =
     (let M = int (length eigenvectors); noiseDim = M - numSources in
      bnd (make_slice noiseDim ([]::complex list)) (\<lambda>noiseSubspace.
        if 0 < noiseDim \<and> numSources < 0 then Inl (Panic IndexOutOfRange)
        else Inr (map (\<lambda>i. eigenvectors ! (nat numSources + i)) [0..<nat noiseDim])))"

record peak =
  peak_index :: nat
  peak_value :: real

definition findPeaks :: "real list \<Rightarrow> int \<Rightarrow> failure + real list" where
  "findPeaks spectrum numPeaks =
     (let peaks = map (\<lambda>i. \<lparr>peak_index = i, peak_value = spectrum ! i\<rparr>)
                    (filter (\<lambda>i. spectrum ! i > spectrum ! (i - 1) \<and> spectrum ! i > spectrum ! (i + 1))
                            [1..<length spectrum - 1]);
          sorted = exchange_sort peak_value (length peaks - 1) peaks
      in bnd (if int (length sorted) > numPeaks
              then (if numPeaks < 0 then Inl (Panic SliceBoundsOutOfRange)
                    else Inr (take (nat numPeaks) sorted))
              else Inr sorted) (\<lambda>top.
           Inr (map (\<lambda>p. - pi / 2 + real (peak_index p) * pi / real (length spectrum)) top)))"

text \<open>The steering vector and the projection energy at grid point \<open>i\<close> of \<^verbatim>\<open>musicAlgorithm\<close>.\<close>

definition music_denom :: "int \<Rightarrow> complex list list \<Rightarrow> nat \<Rightarrow> real" where
  "music_denom elementCount' noiseSubspace i =
     (let numPoints = 360; d = 0.5;
          angle = - pi / 2 + real i * pi / real numPoints;
          steering = map (\<lambda>n. let phase = 2 * pi * real n * d * sin angle
                                in exp (Complex 0 phase)) [0..<nat elementCount']
      in fold (\<lambda>k denom.
           let proj = fold (\<lambda>n proj. proj + cnj (noiseSubspace ! k ! n) * steering ! n)
                           [0..<nat elementCount'] (0::complex)
           in denom + cmod proj * cmod proj) [0..<length noiseSubspace] 0)"

definition music_spectrum :: "int \<Rightarrow> complex list list \<Rightarrow> real list" where
  "music_spectrum elementCount' noiseSubspace =
     map (\<lambda>i. let denom = music_denom elementCount' noiseSubspace i
              in if denom > 1 / 10 ^ 10 then 1 / denom else 10 ^ 10) [0..<360]"

definition musicAlgorithm :: "complex list \<Rightarrow> DOAParams \<Rightarrow> failure + real list \<times> real list" where
  "musicAlgorithm data params =
     bnd (generateReceivedSignal data params) (\<lambda>X.
     bnd (Estimator_computeCovarianceMatrix X) (\<lambda>covMatrix.
     bnd (eigenDecomposition covMatrix) (\<lambda>(eigenvalues, eigenvectors).
     bnd (extractNoiseSubspace eigenvectors (DOAParams.NumSources params)) (\<lambda>noiseSubspace.
     bnd (make_slice (ElementCount params) (0::complex)) (\<lambda>steering0.
       if list_ex (\<lambda>u. int (length u) < ElementCount params) noiseSubspace
       then Inl (Panic IndexOutOfRange)
       else
         let spectrum = music_spectrum (ElementCount params) noiseSubspace
         in bnd (findPeaks spectrum (DOAParams.NumSources params)) (\<lambda>estimatedAngles.
              Inr (spectrum, estimatedAngles)))))))"

subsection \<open>The estimator on a covariance matrix\<close>

text \<open>
  The type \<^verbatim>\<open>MUSIC\<close> with \<^verbatim>\<open>ComputeSpectrum\<close> and \<^verbatim>\<open>EstimateDOA\<close>; its
  \<^verbatim>\<open>eigenDecomposition\<close> runs the outer loop of the exchange sort to \<open>n - 1\<close>, and its
  \<^verbatim>\<open>findPeaks\<close> returns grid indices.
\<close>

record MUSIC =
  elementCount :: int
  numSources :: int
  elementSpacing :: real

text \<open>Running a fallible loop body over a slice, stopping at the first failure.\<close>

fun for_each :: "('a \<Rightarrow> failure + 'b) \<Rightarrow> 'a list \<Rightarrow> failure + 'b list" where
  "for_each f [] = Inr []"
| "for_each f (x # xs) = bnd (f x) (\<lambda>y. bnd (for_each f xs) (\<lambda>ys. Inr (y # ys)))"

definition MUSIC_computeSteeringVector :: "MUSIC \<Rightarrow> real \<Rightarrow> failure + complex list" where
  "MUSIC_computeSteeringVector m angle =
     bnd (make_slice (MUSIC.elementCount m) (0::complex)) (\<lambda>steering0.
       Inr (map (\<lambda>n. let phase = 2 * pi * real n * MUSIC.elementSpacing m * sin angle
                     in exp (Complex 0 phase)) [0..<nat (MUSIC.elementCount m)]))"

definition MUSIC_eigenDecomposition ::
    "complex list list \<Rightarrow> failure + real list \<times> complex list list" where
  "MUSIC_eigenDecomposition matrix =
     (let n = length matrix in
      if list_ex (\<lambda>row. length row < n) matrix then Inl (Panic IndexOutOfRange)
      else
        let eigenvectors = tabulate n n (\<lambda>i j. if i = j then (1::complex) else 0);
            eigenvalues = map (\<lambda>i.
                fold (\<lambda>j sum. let absVal = cmod (matrix ! i ! j) in sum + absVal * absVal)
                     [0..<n] 0 / real n) [0..<n];
            sorted = exchange_sort fst (n - 1) (zip eigenvalues eigenvectors)
        in Inr (map fst sorted, map snd sorted))"

definition ComputeSpectrum :: "MUSIC \<Rightarrow> complex list list \<Rightarrow> real list \<Rightarrow> failure + real list" where
  "ComputeSpectrum m covMatrix searchAngles =
     bnd (MUSIC_eigenDecomposition covMatrix) (\<lambda>(eigenvalues, eigenvectors).
       let noiseDim = MUSIC.elementCount m - MUSIC.numSources m in
       bnd (make_slice noiseDim ([]::complex list)) (\<lambda>noiseSubspace0.
         if 0 < noiseDim \<and> (MUSIC.numSources m < 0 \<or> int (length eigenvectors) < MUSIC.elementCount m)
         then Inl (Panic IndexOutOfRange)
         else
           let noiseSubspace = map (\<lambda>i. eigenvectors ! (nat (MUSIC.numSources m) + i))
                                   [0..<nat noiseDim]
           in for_each (\<lambda>angle.
                bnd (MUSIC_computeSteeringVector m angle) (\<lambda>steering.
                  if list_ex (\<lambda>u. int (length u) < MUSIC.elementCount m) noiseSubspace
                  then Inl (Panic IndexOutOfRange)
                  else
                    let denom = fold (\<lambda>k denom.
                                  let proj = fold (\<lambda>n proj. proj + cnj (noiseSubspace ! k ! n) * steering ! n)
                                                  [0..<nat (MUSIC.elementCount m)] (0::complex)
                                  in denom + cmod proj * cmod proj) [0..<length noiseSubspace] 0
                    in Inr (if denom > 1 / 10 ^ 10 then 10 * log 10 (1 / denom) else 100)))
              searchAngles))"

definition MUSIC_findPeaks :: "real list \<Rightarrow> int \<Rightarrow> failure + nat list" where
  "MUSIC_findPeaks spectrum numPeaks =
     (let peaks = map (\<lambda>i. \<lparr>peak_index = i, peak_value = spectrum ! i\<rparr>)
                    (filter (\<lambda>i. spectrum ! i > spectrum ! (i - 1) \<and> spectrum ! i > spectrum ! (i + 1))
                            [1..<length spectrum - 1]);
          sorted = exchange_sort peak_value (length peaks - 1) peaks
      in bnd (if int (length sorted) > numPeaks
              then (if numPeaks < 0 then Inl (Panic SliceBoundsOutOfRange)
                    else Inr (take (nat numPeaks) sorted))
              else Inr sorted) (\<lambda>top.
           Inr (map peak_index top)))"

definition MUSIC_EstimateDOA :: "MUSIC \<Rightarrow> complex list list \<Rightarrow> failure + real list" where
  "MUSIC_EstimateDOA m covMatrix =
     (let numPoints = 360;
          searchAngles = map (\<lambda>i. - pi / 2 + real i * pi / real numPoints) [0..<numPoints]
      in bnd (ComputeSpectrum m covMatrix searchAngles) (\<lambda>spectrum.
         bnd (MUSIC_findPeaks spectrum (MUSIC.numSources m)) (\<lambda>peaks.
           if list_ex (\<lambda>p. length searchAngles \<le> p) peaks then Inl (Panic IndexOutOfRange)
           else Inr (map (\<lambda>p. searchAngles ! p) peaks))))"

section \<open>Closed-form beamforming weights\<close>

record WeightsCalculator =
  elementCount :: int
  elementSpacing :: real

definition WeightsCalculator_normalize :: "complex list \<Rightarrow> complex list" where
  "WeightsCalculator_normalize weights =
     (let sum = fold (\<lambda>weight sum. sum + cmod weight * cmod weight) weights 0;
          norm = sqrt sum
      in map (\<lambda>weight. weight / complex_of_real norm) weights)"

definition ComputeConjugateBeamforming :: "WeightsCalculator \<Rightarrow> real \<Rightarrow> failure + complex list" where
  "ComputeConjugateBeamforming w targetAngle =
     bnd (make_slice (elementCount w) (0::complex)) (\<lambda>weights0.
       Inr (WeightsCalculator_normalize (map (\<lambda>n.
              let phase = 2 * pi * real n * elementSpacing w * sin targetAngle
              in exp (Complex 0 (- phase))) [0..<nat (elementCount w)])))"

definition ComputeZOFBeamforming :: "WeightsCalculator \<Rightarrow> real list \<Rightarrow> failure + complex list" where
  "ComputeZOFBeamforming w targetAngles =
     bnd (make_slice (elementCount w) (0::complex)) (\<lambda>weights0.
       Inr (WeightsCalculator_normalize (map (\<lambda>n.
              let phase = fold (\<lambda>angle phase.
                            phase + exp (Complex 0 (2 * pi * real n * elementSpacing w * sin angle)))
                          targetAngles (0::complex)
              in cnj phase) [0..<nat (elementCount w)])))"

text \<open>
  \<^verbatim>\<open>matrixInverse\<close>: Gauss-Jordan elimination on the augmented matrix, pivoting on the
  diagonal entry as it stands, with no test of the pivot: a zero pivot makes the quotients
  of its row non-finite, and the elimination carries them into every other row.
\<close>

definition eliminate :: "nat \<Rightarrow> nat \<Rightarrow> c128 list list \<Rightarrow> c128 list list" where
  "eliminate n i aug =
     (let pivot = aug ! i ! i;
          rowi = map (\<lambda>x. cdiv x pivot) (aug ! i);
          aug1 = aug[i := rowi]
      in map (\<lambda>k. if k \<noteq> i
                   then (let factor = aug1 ! k ! i
                         in map (\<lambda>j. csub (aug1 ! k ! j) (cmul factor (rowi ! j))) [0..<2 * n])
                   else rowi) [0..<n])"

definition matrixInverse :: "complex list list \<Rightarrow> failure + c128 list list" where
  "matrixInverse matrix =
     (let n = length matrix in
      if list_ex (\<lambda>row. length row < n) matrix then Inl (Panic IndexOutOfRange)
      else
        let aug0 = tabulate n (2 * n) (\<lambda>i j. if j < n then Val (matrix ! i ! j)
                                              else if j = n + i then Val 1 else Val 0);
            aug = fold (eliminate n) [0..<n] aug0
        in Inr (tabulate n n (\<lambda>i j. aug ! i ! (n + j))))"

definition ComputeMVDRWeights :: "complex list list \<Rightarrow> complex list \<Rightarrow> failure + c128 list" where
  "ComputeMVDRWeights covMatrix steeringVector =
     (let n = length steeringVector in
      bnd (matrixInverse covMatrix) (\<lambda>invCov.
        if length invCov < n then Inl (Panic IndexOutOfRange)
        else
          let weights = map (\<lambda>i. fold (\<lambda>j sum. cadd sum (cmul (invCov ! i ! j) (Val (steeringVector ! j))))
                                       [0..<n] (Val 0)) [0..<n];
              denom = fold (\<lambda>i denom. cadd denom (cmul (Val (cnj (steeringVector ! i))) (weights ! i)))
                           [0..<n] (Val 0)
          in Inr (map (\<lambda>weight. cdiv weight denom) weights)))"

section \<open>The adaptive optimizer\<close>

record Optimizer =
  elementCount :: int
  maxIterations :: int
  convergenceThreshold :: real

record BeamformingParams =
  ElementCount :: int
  TargetDirection :: real
  InterferenceAngles :: "real list"
  SNRThreshold :: real
  MaxIterations :: int

record BeamformingResult =
  Weights :: "real list list"
  BeamPattern :: "real list"
  MainLobeDirection :: real
  MainLobeWidth :: real
  SLL :: real
  Iterations :: int
  Converged :: bool

definition normalizeWeights :: "complex list \<Rightarrow> complex list" where
  "normalizeWeights weights =
     (let sum = fold (\<lambda>w sum. sum + cmod w * cmod w) weights 0;
          norm = sqrt sum
      in map (\<lambda>w. w / complex_of_real norm) weights)"

definition initializeWeights :: "int \<Rightarrow> failure + complex list" where
  "initializeWeights elementCount' =
     bnd (make_slice elementCount' (0::complex)) (\<lambda>weights0.
       Inr (normalizeWeights (map (\<lambda>i.
              let phase = - 2 * pi * real i * 0.5
              in exp (Complex 0 phase)) [0..<nat elementCount'])))"

definition computeSteeringVector :: "int \<Rightarrow> real \<Rightarrow> failure + complex list" where
  "computeSteeringVector elementCount' angle =
     bnd (make_slice elementCount' (0::complex)) (\<lambda>steering0.
       let d = 0.5
       in Inr (map (\<lambda>n. let phase = 2 * pi * real n * d * sin angle
                         in exp (Complex 0 phase)) [0..<nat elementCount']))"

definition checkConvergence :: "complex list \<Rightarrow> real \<Rightarrow> real \<Rightarrow> failure + bool" where
  "checkConvergence weights targetAngle snrThreshold =
     bnd (computeSteeringVector (int (length weights)) targetAngle) (\<lambda>steering.
       let response = fold (\<lambda>n response. response + weights ! n * cnj (steering ! n))
                           [0..<length weights] (0::complex);
           snr = cmod response
       in Inr (snr \<ge> snrThreshold))"

text \<open>One pass through the body of the loop of \<^verbatim>\<open>Optimize\<close>, up to the convergence test.\<close>

definition gradient_step :: "BeamformingParams \<Rightarrow> complex list \<Rightarrow> int \<Rightarrow> complex list \<Rightarrow> complex list" where
  "gradient_step params targetSteering iterations weights =
     (let E = nat (ElementCount params);
          gradient = map (\<lambda>n. fold (\<lambda>m grad.
                        grad + weights ! m * cnj (targetSteering ! n) * targetSteering ! m)
                      [0..<E] (0::complex)) [0..<E];
          stepSize = 0.1 / complex_of_real (real_of_int (iterations + 1))
      in normalizeWeights (map (\<lambda>n. weights ! n + stepSize * gradient ! n) [0..<E]))"

function Optimize_loop ::
    "Optimizer \<Rightarrow> BeamformingParams \<Rightarrow> complex list \<Rightarrow> int \<Rightarrow> complex list \<times> int \<times> bool
       \<Rightarrow> failure + complex list \<times> int \<times> bool" where
  "Optimize_loop opt params targetSteering iter (weights, iterations, converged) =
     (if iter < maxIterations opt then
        (let iterations' = iter + 1;
             weights' = gradient_step params targetSteering iterations' weights
         in bnd (checkConvergence weights' (TargetDirection params) (SNRThreshold params)) (\<lambda>c.
              if c then Inr (weights', iterations', True)
              else Optimize_loop opt params targetSteering (iter + 1) (weights', iterations', converged)))
      else Inr (weights, iterations, converged))"
  by pat_completeness auto
termination
  by (relation "measure (\<lambda>(opt, params, ts, iter, st). nat (maxIterations opt - iter))") auto

definition computeBeamPattern :: "complex list \<Rightarrow> int \<Rightarrow> failure + real list" where
  "computeBeamPattern weights numPoints =
     bnd (make_slice numPoints (0::real)) (\<lambda>pattern0.
       let d = 0.5
       in Inr (map (\<lambda>i.
                 let angle = - pi / 2 + real i * pi / real_of_int numPoints;
                     response = fold (\<lambda>n response.
                                  let phase = 2 * pi * real n * d * sin angle
                                  in response + weights ! n * exp (Complex 0 (- phase)))
                                [0..<length weights] (0::complex)
                 in cmod response) [0..<nat numPoints]))"

definition analyzeBeamPattern :: "real list \<Rightarrow> failure + real \<times> real \<times> real" where
  "analyzeBeamPattern pattern =
     (if pattern = [] then Inl (Panic IndexOutOfRange)
      else
        let (maxVal, maxIdx) = fold (\<lambda>i (maxVal, maxIdx).
                                  if pattern ! i > maxVal then (pattern ! i, i) else (maxVal, maxIdx))
                                [0..<length pattern] (pattern ! 0, 0);
            mainLobeDir = - pi / 2 + real maxIdx * pi / real (length pattern);
            halfPower = maxVal / sqrt 2;
            leftIdx = (case find (\<lambda>i. pattern ! i < halfPower) (rev [0..<Suc maxIdx]) of
                         None \<Rightarrow> maxIdx | Some i \<Rightarrow> i);
            rightIdx = (case find (\<lambda>i. pattern ! i < halfPower) [maxIdx..<length pattern] of
                          None \<Rightarrow> maxIdx | Some i \<Rightarrow> i);
            mainLobeWidth = (real rightIdx - real leftIdx) * pi / real (length pattern);
            sll = fold (\<lambda>i sll. if (i < leftIdx \<or> i > rightIdx) \<and> pattern ! i > sll
                                then pattern ! i else sll) [0..<length pattern] 0
        in Inr (mainLobeDir, mainLobeWidth, sll))"

text \<open>The weights with which \<^verbatim>\<open>Optimize\<close> enters its loop.\<close>

definition Optimize_initial :: "BeamformingParams \<Rightarrow> failure + complex list" where
  "Optimize_initial params = initializeWeights (ElementCount params)"

definition Optimize :: "Optimizer \<Rightarrow> BeamformingParams \<Rightarrow> failure + BeamformingResult" where
  "Optimize opt params =
     bnd (Optimize_initial params) (\<lambda>weights.
     bnd (computeSteeringVector (ElementCount params) (TargetDirection params)) (\<lambda>targetSteering.
     bnd (make_slice (int (length (InterferenceAngles params))) ([]::complex list)) (\<lambda>is0.
     bnd (Optimize_loop opt params targetSteering 0 (weights, 0, False)) (\<lambda>(weights, iterations, converged).
     bnd (computeBeamPattern weights 360) (\<lambda>beamPattern.
     bnd (analyzeBeamPattern beamPattern) (\<lambda>(mainLobeDir, mainLobeWidth, sll).
       Inr \<lparr>Weights = map (\<lambda>w. [Re w, Im w]) weights,
            BeamPattern = beamPattern,
            MainLobeDirection = mainLobeDir,
            MainLobeWidth = mainLobeWidth,
            SLL = sll,
            Iterations = iterations,
            Converged = converged\<rparr>))))))"

section \<open>Reference notions\<close>

text \<open>
  What the three gonum routines return on a diagonal matrix whose diagonal is non-negative
  and non-increasing: the diagonal as eigenvalues, the identity as left singular vectors,
  and the entry-wise reciprocal as inverse unless a diagonal entry is zero. The concrete
  runs of the estimator below are on such matrices.
\<close>

definition diagonal_gonum :: gonum where
  "diagonal_gonum =
     \<lparr>Eigen_Values = (\<lambda>A. Some (map (\<lambda>i. complex_of_real (A ! i ! i)) [0..<length A])),
      SVD_U = (\<lambda>A. Some (tabulate (length A) (length A) (\<lambda>i j. if i = j then 1 else 0))),
      Dense_Inverse = (\<lambda>A. if list_ex (\<lambda>i. A ! i ! i = 0) [0..<length A] then None
                             else Some (tabulate (length A) (length A)
                                          (\<lambda>i j. if i = j then 1 / A ! i ! i else 0)))\<rparr>"

text \<open>The matrix \<open>Us1\<^sup>T Us1\<close> of the real parts, entry by entry.\<close>

definition Us1TUs1 :: "complex list list \<Rightarrow> real list list" where
  "Us1TUs1 Us1 =
     tabulate (mcols Us1) (mcols Us1)
       (\<lambda>i j. \<Sum>k\<leftarrow>[0..<mrows Us1]. Re (Us1 ! k ! i) * Re (Us1 ! k ! j))"

text \<open>
  The comparison of two angle sets as the specification words it, and as the repository's
  MATLAB reference \<^verbatim>\<open>compute_rmse\<close> does it: both sets are sorted ascending, then paired.
\<close>

definition ComputeRMSE_sorted :: "real list \<Rightarrow> real list \<Rightarrow> xreal" where
  "ComputeRMSE_sorted estimatedAngles trueAngles =
     ComputeRMSE (sort estimatedAngles) (sort trueAngles)"

text \<open>
  The augmented matrix of \<^verbatim>\<open>matrixInverse\<close> has \<open>n\<close> rows of length \<open>2n\<close>; its entries
  are finite throughout, or non-finite throughout.
\<close>

definition augmented :: "nat \<Rightarrow> c128 list list \<Rightarrow> bool" where
  "augmented n aug \<longleftrightarrow> length aug = n \<and> list_all (\<lambda>row. length row = 2 * n) aug"

definition finite_entries :: "c128 list list \<Rightarrow> bool" where
  "finite_entries A = list_all (list_all (\<lambda>x. x \<noteq> NaNInf)) A"

definition no_finite_entry :: "c128 list list \<Rightarrow> bool" where
  "no_finite_entry A = list_all (list_all (\<lambda>x. x = NaNInf)) A"

text \<open>The Euclidean norm of a weight vector.\<close>

definition l2norm :: "complex list \<Rightarrow> real" where
  "l2norm ws = sqrt (\<Sum>w\<leftarrow>ws. (cmod w)\<^sup>2)"

text \<open>The grid indices at which a spectrum has a strict local maximum, in ascending order.\<close>

definition strict_local_maxima :: "real list \<Rightarrow> nat list" where
  "strict_local_maxima spectrum =
     filter (\<lambda>i. spectrum ! (i - 1) < spectrum ! i \<and> spectrum ! (i + 1) < spectrum ! i)
            [1..<length spectrum - 1]"

text \<open>
  The energy \<open>\<Sum>\<^sub>k |u\<^sub>k\<^sup>H a(\<theta>)|\<^sup>2\<close> of the projection of the steering vector of an \<open>M\<close>-element
  half-wavelength array onto the vectors \<open>u\<^sub>k\<close>.
\<close>

definition projection_energy :: "nat \<Rightarrow> complex list list \<Rightarrow> real \<Rightarrow> real" where
  "projection_energy M U theta =
     (\<Sum>u\<leftarrow>U. (cmod (\<Sum>n<M. cnj (u ! n) * cis (2 * pi * real n * 0.5 * sin theta)))\<^sup>2)"

text \<open>The \<open>r\<close>-th unit vector of length \<open>n\<close>.\<close>

definition unit_vector :: "nat \<Rightarrow> nat \<Rightarrow> complex list" where
  "unit_vector n r = map (\<lambda>j. if r = j then 1 else 0) [0..<n]"

text \<open>
  The noise-free part of a test signal: the superposition of the steering vectors of the
  true angles, modulated by \<open>exp(j 2\<pi> t 0.01)\<close>.
\<close>

definition clean_signal :: "ESPRITConfig \<Rightarrow> real list \<Rightarrow> nat \<Rightarrow> nat \<Rightarrow> complex" where
  "clean_signal config trueAngles m t =
     (\<Sum>k<length trueAngles.
        cis (2 * pi * real m * ElementSpacing config * sin (trueAngles ! k))
          * cis (2 * pi * real t * 0.01))"

text \<open>
  The record that a Monte Carlo run over one or more identical trials stores for an SNR,
  given the outcome of a single trial: the trial's own RMSE and a success rate of 0 or 1,
  or zeros when the trial returns an error.
\<close>

definition replicated_summary :: "failure + ESPRITResult \<Rightarrow> ESPRITResult" where
  "replicated_summary outcome =
     (case outcome of
        Inr result \<Rightarrow>
          \<lparr>Angles = [], RMSE = RMSE result,
           SuccessRate = Fin (if xless (RMSE result) 0.1 then 1 else 0),
           ProcessingTime = 0, Eigenvalues = []\<rparr>
      | Inl f \<Rightarrow>
          \<lparr>Angles = [], RMSE = Fin 0, SuccessRate = Fin 0,
           ProcessingTime = 0, Eigenvalues = []\<rparr>)"

section \<open>Basic facts\<close>

lemma bnd_Inr_iff: "bnd m f = Inr y \<longleftrightarrow> (\<exists>x. m = Inr x \<and> f x = Inr y)"
  by (cases m) (simp_all add: bnd_def)

lemma bnd_Inr [simp]: "bnd (Inr x) f = f x"
  by (simp add: bnd_def)

lemma bnd_Inl [simp]: "bnd (Inl e) f = Inl e"
  by (simp add: bnd_def)

lemma length_tabulate [simp]: "length (tabulate r c f) = r"
  by (simp add: tabulate_def)

lemma mrows_tabulate [simp]: "mrows (tabulate r c f) = r"
  by (simp add: mrows_def)

lemma nth_tabulate [simp]: "i < r \<Longrightarrow> tabulate r c f ! i = map (f i) [0..<c]"
  by (simp add: tabulate_def)

lemma NewDense_Inr_iff: "NewDense r c z = Inr A \<longleftrightarrow> 0 < r \<and> 0 < c \<and> A = replicate (nat r) (replicate (nat c) z)"
  by (auto simp: NewDense_def)

lemma covers_tabulate: "covers (tabulate n n f) n n"
  by (simp add: covers_def tabulate_def list_all_iff)

section \<open>ESPRIT with two or more sources\<close>

lemma covariance_rows:
  "ESPRITEstimator_computeCovarianceMatrix X = Inr cov \<Longrightarrow> mrows cov = length X"
  by (auto simp: ESPRITEstimator_computeCovarianceMatrix_def Let_def bnd_Inr_iff split: if_splits)

lemma extractSignalSubspace_rows:
  assumes "extractSignalSubspace g cov K = Inr S"
  shows "0 < K \<and> K < int (mrows cov) \<and> mrows S = nat (int (mrows cov) - K)"
  using assms
  by (auto simp: extractSignalSubspace_def Let_def bnd_Inr_iff NewDense_Inr_iff
           split: option.splits if_splits)

lemma espritCore_small:
  "int (mrows S) < M - 1 \<Longrightarrow> espritCore g cfg S M K = Inl (Error ''signal subspace too small'')"
  by (simp add: espritCore_def Let_def)

lemma EstimateDOA_no_angles:
  assumes "2 \<le> ESPRITConfig.NumSources cfg"
  shows "EstimateDOA g cfg X \<noteq> Inr r"
proof
  assume ok: "EstimateDOA g cfg X = Inr r"
  let ?M = "NumAntennas cfg" and ?K = "ESPRITConfig.NumSources cfg"
  from ok have len: "int (length X) = ?M"
    by (auto simp: EstimateDOA_def Let_def split: if_splits)
  from ok len obtain cov where cov: "ESPRITEstimator_computeCovarianceMatrix X = Inr cov"
    by (cases "ESPRITEstimator_computeCovarianceMatrix X") (auto simp: EstimateDOA_def Let_def)
  from ok len cov obtain ev where ev: "computeEigenvalues g cov = Inr ev"
    by (cases "computeEigenvalues g cov") (auto simp: EstimateDOA_def Let_def)
  from ok len cov ev obtain S where S: "extractSignalSubspace g cov ?K = Inr S"
    by (cases "extractSignalSubspace g cov ?K") (auto simp: EstimateDOA_def Let_def)
  from extractSignalSubspace_rows [OF S] covariance_rows [OF cov] len assms
  have "int (mrows S) < ?M - 1" by auto
  then have "espritCore g cfg S ?M ?K = Inl (Error ''signal subspace too small'')"
    by (rule espritCore_small)
  with ok len cov ev S show False
    by (simp add: EstimateDOA_def Let_def)
qed

lemma covers_mono:
  assumes "covers A r c" and "r' \<le> r" and "c' \<le> c"
  shows "covers A r' c'"
proof (cases "r' = 0 \<or> c' = 0")
  case True
  then show ?thesis by (auto simp: covers_def)
next
  case False
  with assms have rc: "r \<le> length A" "list_all (\<lambda>row. c \<le> length row) (take r A)"
    by (auto simp: covers_def)
  have "set (take r' A) \<subseteq> set (take r A)"
    using assms(2) by (rule set_take_subset_set_take)
  with rc(2) assms(3) have "list_all (\<lambda>row. c' \<le> length row) (take r' A)"
    unfolding list_all_iff by (meson order_trans subsetD)
  with rc(1) assms(2) show ?thesis
    by (simp add: covers_def)
qed

lemma EstimateDOA_error:
  assumes K: "2 \<le> ESPRITConfig.NumSources cfg" "ESPRITConfig.NumSources cfg < NumAntennas cfg"
    and len: "int (length X) = NumAntennas cfg"
    and rect: "list_all (\<lambda>row. length row = length (X ! 0)) X"
    and eig: "\<And>A vals. Eigen_Values g A = Some vals \<Longrightarrow> length A \<le> length vals"
    and svd: "\<And>A u. SVD_U g A = Some u \<Longrightarrow> covers u (length A) (length A)"
  shows "EstimateDOA g cfg X = Inl (Error ''esprit core computation failed: signal subspace too small'')
       \<or> EstimateDOA g cfg X = Inl (Error ''extract signal subspace failed: SVD factorization failed'')"
proof -
  let ?M = "NumAntennas cfg" and ?K = "ESPRITConfig.NumSources cfg"
  from K len have X: "X \<noteq> []" by auto
  from rect have "\<not> list_ex (\<lambda>row. length row < length (X ! 0)) X"
    by (auto simp: list_all_iff list_ex_iff)
  with X obtain cov where cov: "ESPRITEstimator_computeCovarianceMatrix X = Inr cov"
    and rows: "mrows cov = length X"
    by (auto simp: ESPRITEstimator_computeCovarianceMatrix_def Let_def NewDense_def)
  have lenR: "length (realCov cov) = length X"
    using rows by (simp add: realCov_def Let_def)
  obtain ev where ev: "computeEigenvalues g cov = Inr ev"
    using eig [of "realCov cov"] lenR rows
    by (cases "Eigen_Values g (realCov cov)") (auto simp: computeEigenvalues_def Let_def)
  show ?thesis
  proof (cases "SVD_U g (realCov cov)")
    case None
    then have "extractSignalSubspace g cov ?K = Inl (Error ''SVD factorization failed'')"
      by (simp add: extractSignalSubspace_def Let_def)
    with len cov ev show ?thesis
      by (simp add: EstimateDOA_def Let_def)
  next
    case (Some u)
    from svd [OF Some] lenR have full: "covers u (length X) (length X)" by simp
    have "covers u (nat (int (length X) - ?K)) (nat ?K)"
    proof (rule covers_mono [OF full])
      show "nat (int (length X) - ?K) \<le> length X" using K by linarith
      show "nat ?K \<le> length X" using K len by linarith
    qed
    with Some K len rows obtain S where S: "extractSignalSubspace g cov ?K = Inr S"
      by (auto simp: extractSignalSubspace_def Let_def NewDense_def)
    from extractSignalSubspace_rows [OF S] rows len K
    have "int (mrows S) < ?M - 1" by auto
    then have "espritCore g cfg S ?M ?K = Inl (Error ''signal subspace too small'')"
      by (rule espritCore_small)
    with len cov ev S show ?thesis
      by (simp add: EstimateDOA_def Let_def)
  qed
qed

lemma cov_id2: "ESPRITEstimator_computeCovarianceMatrix [[1, 0], [0, 1]] = Inr [[1/2, 0], [0, 1/2]]"
  by (simp add: ESPRITEstimator_computeCovarianceMatrix_def NewDense_def tabulate_def Let_def upt_rec)

lemma realCov_id2: "realCov [[1/2, 0], [0, 1/2]] = [[1/2, 0], [0, 1/2]]"
  by (simp add: realCov_def mrows_def tabulate_def Let_def upt_rec)

text \<open>
  C3, as stated: for every \<open>K \<ge> 2\<close> the call returns an error. With \<open>K = M = 2\<close> the
  allocation \<^verbatim>\<open>mat.NewCDense(M-numSources, numSources, nil)\<close> of \<^verbatim>\<open>extractSignalSubspace\<close>
  has a zero dimension, with \<open>K = 3 > M = 2\<close> a negative one, and panics: the call does not
  return, and \<^verbatim>\<open>espritCore\<close> with its ``signal subspace too small'' branch is never
  reached.
\<close>

theorem EstimateDOA_K_equals_M_counterexample:
  "EstimateDOA diagonal_gonum
     \<lparr>NumAntennas = 2, NumSources = 2, ElementSpacing = 0.5,
      SnapshotLength = 2, SampleRate = 0, CarrierFreq = 0\<rparr> [[1, 0], [0, 1]]
   = Inl (Panic MatZeroLength) \<and>
   EstimateDOA diagonal_gonum
     \<lparr>NumAntennas = 2, NumSources = 3, ElementSpacing = 0.5,
      SnapshotLength = 2, SampleRate = 0, CarrierFreq = 0\<rparr> [[1, 0], [0, 1]]
   = Inl (Panic MatNegativeDimension)"
  by (simp add: EstimateDOA_def cov_id2 realCov_id2 computeEigenvalues_def extractSignalSubspace_def
       diagonal_gonum_def NewDense_def mrows_def Let_def)

text \<open>
  C3, amended: for every configuration with \<open>K \<ge> 2\<close> and every input with \<open>M\<close> rows,
  \<^verbatim>\<open>EstimateDOA\<close> never produces angle estimates. When moreover \<open>K < M\<close>, the input is
  rectangular and the factorizations have the shape of their argument, the call returns an
  error: ``signal subspace too small'' from \<^verbatim>\<open>espritCore\<close> (the subspace has \<open>M - K\<close> rows,
  fewer than \<open>M - 1\<close>), or the failure of the SVD. For \<open>K \<ge> M\<close> the call may panic instead.
\<close>

theorem EstimateDOA_two_or_more_sources:
  assumes "2 \<le> ESPRITConfig.NumSources cfg" and "int (length X) = NumAntennas cfg"
  shows "(\<forall>r. EstimateDOA g cfg X \<noteq> Inr r) \<and>
         (ESPRITConfig.NumSources cfg < NumAntennas cfg \<and>
          list_all (\<lambda>row. length row = length (X ! 0)) X \<and>
          (\<forall>A vals. Eigen_Values g A = Some vals \<longrightarrow> length A \<le> length vals) \<and>
          (\<forall>A u. SVD_U g A = Some u \<longrightarrow> covers u (length A) (length A))
          \<longrightarrow> EstimateDOA g cfg X
                = Inl (Error ''esprit core computation failed: signal subspace too small'')
            \<or> EstimateDOA g cfg X
                = Inl (Error ''extract signal subspace failed: SVD factorization failed''))"
proof (intro conjI allI impI)
  fix r show "EstimateDOA g cfg X \<noteq> Inr r"
    using assms(1) by (rule EstimateDOA_no_angles)
next
  assume h: "ESPRITConfig.NumSources cfg < NumAntennas cfg \<and>
          list_all (\<lambda>row. length row = length (X ! 0)) X \<and>
          (\<forall>A vals. Eigen_Values g A = Some vals \<longrightarrow> length A \<le> length vals) \<and>
          (\<forall>A u. SVD_U g A = Some u \<longrightarrow> covers u (length A) (length A))"
  show "EstimateDOA g cfg X
                = Inl (Error ''esprit core computation failed: signal subspace too small'')
            \<or> EstimateDOA g cfg X
                = Inl (Error ''extract signal subspace failed: SVD factorization failed'')"
    by (rule EstimateDOA_error [OF assms(1) _ assms(2)]) (use h in blast)+
qed

theorem EstimateDOA_two_or_more_sources_witness:
  "(2::int) \<le> 2 \<and> int (length [[1, 0, 0], [0, 1, 0], [0, 0, 1::complex]]) = 3 \<and>
   (2::int) < 3 \<and>
   list_all (\<lambda>row. length row = 3) [[1, 0, 0], [0, 1, 0], [0, 0, 1::complex]] \<and>
   (\<forall>r. EstimateDOA diagonal_gonum
           \<lparr>NumAntennas = 3, NumSources = 2, ElementSpacing = 0.5,
            SnapshotLength = 3, SampleRate = 0, CarrierFreq = 0\<rparr>
           [[1, 0, 0], [0, 1, 0], [0, 0, 1]] \<noteq> Inr r) \<and>
   (EstimateDOA diagonal_gonum
           \<lparr>NumAntennas = 3, NumSources = 2, ElementSpacing = 0.5,
            SnapshotLength = 3, SampleRate = 0, CarrierFreq = 0\<rparr>
           [[1, 0, 0], [0, 1, 0], [0, 0, 1]]
      = Inl (Error ''esprit core computation failed: signal subspace too small'')
    \<or> EstimateDOA diagonal_gonum
           \<lparr>NumAntennas = 3, NumSources = 2, ElementSpacing = 0.5,
            SnapshotLength = 3, SampleRate = 0, CarrierFreq = 0\<rparr>
           [[1, 0, 0], [0, 1, 0], [0, 0, 1]]
      = Inl (Error ''extract signal subspace failed: SVD factorization failed''))"
proof -
  have e: "\<forall>A vals. Eigen_Values diagonal_gonum A = Some vals \<longrightarrow> length A \<le> length vals"
    by (auto simp: diagonal_gonum_def)
  have u: "\<forall>A u. SVD_U diagonal_gonum A = Some u \<longrightarrow> covers u (length A) (length A)"
    by (auto simp: diagonal_gonum_def covers_tabulate)
  show ?thesis
    using e u
      EstimateDOA_two_or_more_sources [of "\<lparr>NumAntennas = 3, NumSources = 2, ElementSpacing = 0.5,
            SnapshotLength = 3, SampleRate = 0, CarrierFreq = 0\<rparr>"
            "[[1, 0, 0], [0, 1, 0], [0, 0, 1]]" diagonal_gonum]
    by simp
qed

section \<open>Properties of the ESPRIT performance evaluation\<close>

text \<open>
  C4: the result of \<^verbatim>\<open>ComputeRMSE\<close> is to be invariant under a reordering of either
  argument, both being sorted before they are paired. The Go method pairs the slices as
  they come: the estimates \<open>[1, 0]\<close> against the truth \<open>[0, 1]\<close> score 1, where the same
  estimates in ascending order, and the sorted comparison, score 0.
\<close>

theorem ComputeRMSE_pairs_unsorted:
  "ComputeRMSE [1, 0] [0, 1] = Fin 1 \<and> ComputeRMSE [0, 1] [0, 1] = Fin 0 \<and>
   ComputeRMSE_sorted [1, 0] [0, 1] = Fin 0"
  by (simp add: ComputeRMSE_sorted_def ComputeRMSE_def fdiv_def)

section \<open>The sample covariance\<close>

lemma fold_add_sum:
  fixes a :: "'a::comm_monoid_add"
  shows "fold (\<lambda>t s. s + f t) [0..<n] a = a + sum f {..<n}"
  by (induction n) (simp_all add: add.assoc)

lemma nth_tabulate2 [simp]: "i < r \<Longrightarrow> j < c \<Longrightarrow> tabulate r c f ! i ! j = f i j"
  by (simp add: tabulate_def)

lemma length_nth_tabulate [simp]: "i < r \<Longrightarrow> length (tabulate r c f ! i) = c"
  by (simp add: tabulate_def)

lemma covariance_entry_hermitian:
  fixes X :: "complex list list"
  shows "cnj ((\<Sum>t<N. X ! j ! t * cnj (X ! i ! t)) / of_nat N)
       = (\<Sum>t<N. X ! i ! t * cnj (X ! j ! t)) / of_nat N"
  by (simp add: mult.commute)

text \<open>
  C8: for a snapshot matrix \<open>X\<close> with \<open>M \<ge> 1\<close> rows of equal length \<open>N \<ge> 1\<close>, both
  \<^verbatim>\<open>computeCovarianceMatrix\<close> methods return the \<open>M\<close> by \<open>M\<close> matrix with
  \<open>C[i][j] = (1/N) \<Sum>\<^sub>t X[i][t] conj(X[j][t])\<close>, and \<open>C[i][j] = conj(C[j][i])\<close>.
\<close>

theorem computeCovarianceMatrix_hermitian:
  assumes "X \<noteq> []" and "0 < length (X ! 0)"
    and "list_all (\<lambda>row. length row = length (X ! 0)) X"
  shows "\<exists>C. ESPRITEstimator_computeCovarianceMatrix X = Inr C \<and>
             Estimator_computeCovarianceMatrix X = Inr C \<and>
             length C = length X \<and>
             (\<forall>i<length X. length (C ! i) = length X \<and>
                (\<forall>j<length X.
                   C ! i ! j = (\<Sum>t<length (X ! 0). X ! i ! t * cnj (X ! j ! t)) / of_nat (length (X ! 0)) \<and>
                   C ! i ! j = cnj (C ! j ! i)))"
proof -
  let ?M = "length X" and ?N = "length (X ! 0)"
  let ?C = "tabulate ?M ?M (\<lambda>i j.
               fold (\<lambda>t sum. sum + X ! i ! t * cnj (X ! j ! t)) [0..<?N] 0 / complex_of_real (real ?N))"
  from assms(3) have short: "\<not> list_ex (\<lambda>row. length row < ?N) X"
    by (auto simp: list_all_iff list_ex_iff)
  have e1: "ESPRITEstimator_computeCovarianceMatrix X = Inr ?C"
    using assms(1) short by (simp add: ESPRITEstimator_computeCovarianceMatrix_def Let_def NewDense_def)
  have e2: "Estimator_computeCovarianceMatrix X = Inr ?C"
    using assms(1) short by (simp add: Estimator_computeCovarianceMatrix_def Let_def)
  have entry: "?C ! i ! j = (\<Sum>t<?N. X ! i ! t * cnj (X ! j ! t)) / of_nat ?N"
    if "i < ?M" "j < ?M" for i j
    using that by (simp add: fold_add_sum)
  have herm: "?C ! i ! j = cnj (?C ! j ! i)" if "i < ?M" "j < ?M" for i j
    by (simp only: entry [OF that] entry [OF that(2) that(1)] covariance_entry_hermitian)
  show ?thesis
    using e1 e2 entry herm by (intro exI [of _ ?C]) simp
qed

theorem computeCovarianceMatrix_hermitian_witness:
  "[[1, \<i>]] \<noteq> [] \<and> 0 < length ([[1, \<i>]] ! 0) \<and>
   list_all (\<lambda>row. length row = length ([[1, \<i>]] ! 0)) [[1, \<i>]] \<and>
   (\<exists>C. ESPRITEstimator_computeCovarianceMatrix [[1, \<i>]] = Inr C \<and>
             Estimator_computeCovarianceMatrix [[1, \<i>]] = Inr C \<and>
             length C = 1 \<and> length (C ! 0) = 1 \<and>
             C ! 0 ! 0 = 1 \<and> C ! 0 ! 0 = cnj (C ! 0 ! 0))"
  using computeCovarianceMatrix_hermitian [of "[[1, \<i>]]"] by simp

section \<open>Weight normalization and the initial weights of the optimizer\<close>

lemma exp_Complex_0: "exp (Complex 0 x) = cis x"
  by (simp add: cis_conv_exp Complex_eq)

lemma fold_power_sum_list:
  fixes a :: real
  shows "fold (\<lambda>w s. s + cmod w * cmod w) ws a = a + (\<Sum>w\<leftarrow>ws. (cmod w)\<^sup>2)"
  by (induction ws arbitrary: a) (simp_all add: power2_eq_square add.assoc)

lemma normalizeWeights_eq: "normalizeWeights ws = map (\<lambda>w. w / complex_of_real (l2norm ws)) ws"
  by (simp add: normalizeWeights_def l2norm_def Let_def fold_power_sum_list)

lemma normalize_eq: "WeightsCalculator_normalize ws = map (\<lambda>w. w / complex_of_real (l2norm ws)) ws"
  by (simp add: WeightsCalculator_normalize_def l2norm_def Let_def fold_power_sum_list)

lemma l2norm_unit_entries:
  assumes "\<And>i. cmod (f i) = 1"
  shows "l2norm (map f [0..<n]) = sqrt (real n)"
proof -
  have "(\<Sum>w\<leftarrow>map f [0..<n]. (cmod w)\<^sup>2) = real n"
    by (induction n) (simp_all add: assms)
  then show ?thesis by (simp add: l2norm_def)
qed

lemma alternating_phase: "exp (Complex 0 (- (pi * real i))) = (- 1) ^ i"
proof -
  have m: "cis (- pi) = - 1"
    by (simp add: complex_eq_iff)
  have "exp (Complex 0 (- (pi * real i))) = cis (real i * (- pi))"
    by (simp add: exp_Complex_0 mult.commute)
  also have "\<dots> = cis (- pi) ^ i"
    by (simp only: DeMoivre)
  also have "\<dots> = (- 1) ^ i"
    by (simp only: m)
  finally show ?thesis .
qed

lemma initializeWeights_value:
  assumes "0 \<le> M"
  shows "initializeWeights M
       = Inr (map (\<lambda>i. (- 1) ^ i / complex_of_real (sqrt (real (nat M)))) [0..<nat M])"
proof -
  have n: "l2norm (map (\<lambda>i. (- 1) ^ i) [0..<nat M]) = sqrt (real (nat M))"
    by (rule l2norm_unit_entries) (simp add: norm_power)
  have "initializeWeights M = Inr (normalizeWeights (map (\<lambda>i. (- 1) ^ i) [0..<nat M]))"
    using assms by (simp add: initializeWeights_def make_slice_def Let_def alternating_phase)
  also have "\<dots> = Inr (map (\<lambda>i. (- 1) ^ i / complex_of_real (sqrt (real (nat M)))) [0..<nat M])"
    by (simp only: normalizeWeights_eq n map_map o_def)
  finally show ?thesis .
qed

lemma ComputeConjugateBeamforming_endfire:
  assumes "0 \<le> M"
  shows "ComputeConjugateBeamforming \<lparr>WeightsCalculator.elementCount = M, elementSpacing = 0.5\<rparr> (pi / 2)
       = Inr (map (\<lambda>i. (- 1) ^ i / complex_of_real (sqrt (real (nat M)))) [0..<nat M])"
proof -
  have n: "l2norm (map (\<lambda>i. (- 1) ^ i) [0..<nat M]) = sqrt (real (nat M))"
    by (rule l2norm_unit_entries) (simp add: norm_power)
  have "ComputeConjugateBeamforming \<lparr>WeightsCalculator.elementCount = M, elementSpacing = 0.5\<rparr> (pi / 2)
       = Inr (WeightsCalculator_normalize (map (\<lambda>i. (- 1) ^ i) [0..<nat M]))"
    using assms by (simp add: ComputeConjugateBeamforming_def make_slice_def Let_def alternating_phase)
  also have "\<dots> = Inr (map (\<lambda>i. (- 1) ^ i / complex_of_real (sqrt (real (nat M)))) [0..<nat M])"
    by (simp only: normalize_eq n map_map o_def)
  finally show ?thesis .
qed

text \<open>
  C7, amended: for every \<^verbatim>\<open>BeamformingParams\<close> with \<open>ElementCount = M \<ge> 0\<close>, the weight
  vector that \<^verbatim>\<open>Optimize\<close> holds on entry to its first iteration does not depend on
  \<^verbatim>\<open>TargetDirection\<close>: it is the unit-normalized vector with entries
  \<open>exp(-j\<pi>i) = (-1)\<^sup>i\<close>, that is \<open>(-1)\<^sup>i / \<surd>M\<close>, which is the normalized conjugate steering
  vector towards the fixed end-fire direction \<open>\<pi>/2\<close> at half-wavelength spacing.
\<close>

theorem Optimize_initial_fixed_direction:
  assumes "0 \<le> ElementCount params"
  shows "Optimize_initial params
           = Inr (map (\<lambda>i. (- 1) ^ i / complex_of_real (sqrt (real (nat (ElementCount params)))))
                      [0..<nat (ElementCount params)]) \<and>
         Optimize_initial params
           = ComputeConjugateBeamforming
               \<lparr>WeightsCalculator.elementCount = ElementCount params, elementSpacing = 0.5\<rparr> (pi / 2)"
  using assms
  by (simp only: Optimize_initial_def initializeWeights_value ComputeConjugateBeamforming_endfire)

text \<open>
  C7, as stated: the initial weights are the normalized conjugate steering vector towards
  \<^verbatim>\<open>params.TargetDirection\<close>. With two elements and target direction 0 the optimizer
  starts from \<open>[1, -1] / \<surd>2\<close>; conjugate beamforming towards 0 gives \<open>[1, 1] / \<surd>2\<close>.
\<close>

theorem Optimize_initial_counterexample:
  "Optimize_initial \<lparr>ElementCount = 2, TargetDirection = 0, InterferenceAngles = [],
                     SNRThreshold = 1, MaxIterations = 1\<rparr>
     = Inr [1 / complex_of_real (sqrt 2), - 1 / complex_of_real (sqrt 2)] \<and>
   ComputeConjugateBeamforming \<lparr>WeightsCalculator.elementCount = 2, elementSpacing = 0.5\<rparr> 0
     = Inr [1 / complex_of_real (sqrt 2), 1 / complex_of_real (sqrt 2)] \<and>
   Optimize_initial \<lparr>ElementCount = 2, TargetDirection = 0, InterferenceAngles = [],
                     SNRThreshold = 1, MaxIterations = 1\<rparr>
     \<noteq> ComputeConjugateBeamforming \<lparr>WeightsCalculator.elementCount = 2, elementSpacing = 0.5\<rparr> 0"
proof -
  have u: "[0..<2] = [0, Suc 0]" by (simp add: upt_rec)
  have n: "l2norm [1, 1] = sqrt 2" by (simp add: l2norm_def)
  have "ComputeConjugateBeamforming \<lparr>WeightsCalculator.elementCount = 2, elementSpacing = 0.5\<rparr> 0 = Inr (WeightsCalculator_normalize [1, 1])"
    by (simp add: ComputeConjugateBeamforming_def make_slice_def Let_def u exp_Complex_0)
  then show ?thesis
    using initializeWeights_value [of 2]
    by (simp add: Optimize_initial_def normalize_eq n u)
qed

theorem Optimize_initial_fixed_direction_witness:
  "(0::int) \<le> 2 \<and>
   Optimize_initial \<lparr>ElementCount = 2, TargetDirection = 0, InterferenceAngles = [],
                     SNRThreshold = 1, MaxIterations = 1\<rparr>
     = ComputeConjugateBeamforming \<lparr>WeightsCalculator.elementCount = 2, elementSpacing = 0.5\<rparr> (pi / 2)"
proof -
  have h: "0 \<le> ElementCount \<lparr>ElementCount = 2, TargetDirection = 0, InterferenceAngles = [],
                     SNRThreshold = 1, MaxIterations = 1\<rparr>" by simp
  from Optimize_initial_fixed_direction [OF h] show ?thesis
    by (elim conjE) simp
qed

section \<open>Closed-form weights: norm and response\<close>

lemma sum_list_cmod_nonneg: "0 \<le> (\<Sum>w\<leftarrow>ws. (cmod w)\<^sup>2)"
  by (rule sum_list_nonneg) auto

lemma sum_list_cmod_divide:
  "(\<Sum>w\<leftarrow>ws. (cmod w)\<^sup>2 / c) = (\<Sum>w\<leftarrow>ws. (cmod w)\<^sup>2) / c"
  by (induction ws) (simp_all add: add_divide_distrib)

lemma sum_list_cmod_zero_iff:
  "(\<Sum>w\<leftarrow>ws. (cmod w)\<^sup>2) = 0 \<longleftrightarrow> (\<forall>w\<in>set ws. w = 0)"
proof (induction ws)
  case Nil
  show ?case by simp
next
  case (Cons a ws)
  have "(cmod a)\<^sup>2 + (\<Sum>w\<leftarrow>ws. (cmod w)\<^sup>2) = 0
        \<longleftrightarrow> (cmod a)\<^sup>2 = 0 \<and> (\<Sum>w\<leftarrow>ws. (cmod w)\<^sup>2) = 0"
    by (rule add_nonneg_eq_0_iff) (simp_all add: sum_list_cmod_nonneg)
  with Cons show ?case by simp
qed

lemma l2norm_normalized:
  assumes "l2norm ws \<noteq> 0"
  shows "l2norm (map (\<lambda>w. w / complex_of_real (l2norm ws)) ws) = 1"
proof -
  let ?n = "l2norm ws"
  have pos: "0 \<le> (\<Sum>w\<leftarrow>ws. (cmod w)\<^sup>2)"
    by (rule sum_list_nonneg) auto
  have sq: "?n\<^sup>2 = (\<Sum>w\<leftarrow>ws. (cmod w)\<^sup>2)"
    using pos by (simp add: l2norm_def)
  have "(\<Sum>w\<leftarrow>map (\<lambda>w. w / complex_of_real ?n) ws. (cmod w)\<^sup>2)
      = (\<Sum>w\<leftarrow>ws. (cmod w)\<^sup>2 / ?n\<^sup>2)"
    by (simp add: o_def norm_divide power_divide)
  also have "\<dots> = (\<Sum>w\<leftarrow>ws. (cmod w)\<^sup>2) / ?n\<^sup>2"
    by (rule sum_list_cmod_divide)
  also have "\<dots> = 1"
    using assms by (simp add: sq [symmetric])
  finally show ?thesis
    by (simp add: l2norm_def)
qed

lemma l2norm_zero_iff: "l2norm ws = 0 \<longleftrightarrow> (\<forall>w\<in>set ws. w = 0)"
proof -
  have pos: "0 \<le> (\<Sum>w\<leftarrow>ws. (cmod w)\<^sup>2)"
    by (rule sum_list_nonneg) auto
  show ?thesis
    by (simp add: l2norm_def sum_list_cmod_zero_iff)
qed

lemma ComputeConjugateBeamforming_unit:
  assumes "1 \<le> WeightsCalculator.elementCount w"
  shows "\<exists>ws. ComputeConjugateBeamforming w theta = Inr ws \<and>
              length ws = nat (WeightsCalculator.elementCount w) \<and> l2norm ws = 1"
proof -
  let ?v = "map (\<lambda>n. exp (Complex 0 (- (2 * pi * real n * elementSpacing w * sin theta))))
                [0..<nat (WeightsCalculator.elementCount w)]"
  have "l2norm ?v = sqrt (real (nat (WeightsCalculator.elementCount w)))"
    by (rule l2norm_unit_entries) simp
  with assms have nz: "l2norm ?v \<noteq> 0" by simp
  have "ComputeConjugateBeamforming w theta = Inr (WeightsCalculator_normalize ?v)"
    using assms by (simp add: ComputeConjugateBeamforming_def make_slice_def Let_def)
  with l2norm_normalized [OF nz] show ?thesis
    by (simp add: normalize_eq)
qed

lemma ComputeZOFBeamforming_unit:
  assumes "0 \<le> WeightsCalculator.elementCount w"
    and "list_ex (\<lambda>n. (\<Sum>angle\<leftarrow>angles. exp (Complex 0 (2 * pi * real n * elementSpacing w * sin angle))) \<noteq> 0)
            [0..<nat (WeightsCalculator.elementCount w)]"
  shows "\<exists>ws. ComputeZOFBeamforming w angles = Inr ws \<and>
              length ws = nat (WeightsCalculator.elementCount w) \<and> l2norm ws = 1"
proof -
  have f: "fold (\<lambda>angle phase. phase + g angle) as (a::complex) = a + (\<Sum>angle\<leftarrow>as. g angle)" for g as a
    by (induction as arbitrary: a) (simp_all add: add.assoc)
  let ?v = "map (\<lambda>n. cnj (\<Sum>angle\<leftarrow>angles. exp (Complex 0 (2 * pi * real n * elementSpacing w * sin angle))))
                [0..<nat (WeightsCalculator.elementCount w)]"
  from assms(2) have nz: "l2norm ?v \<noteq> 0"
    by (auto simp: l2norm_zero_iff list_ex_iff)
  have "ComputeZOFBeamforming w angles = Inr (WeightsCalculator_normalize ?v)"
    using assms(1) by (simp add: ComputeZOFBeamforming_def make_slice_def Let_def f)
  with l2norm_normalized [OF nz] show ?thesis
    by (simp add: normalize_eq)
qed




lemma matrixInverse_shape:
  assumes "matrixInverse C = Inr invCov" and "i < length C"
  shows "length invCov = length C" and "length (invCov ! i) = length C"
  using assms by (auto simp: matrixInverse_def Let_def split: if_splits)



lemma fold_cadd_cmul_left:
  assumes "\<And>j. j < n \<Longrightarrow> F j = Val (f j)"
  shows "fold (\<lambda>j sum. cadd sum (cmul (F j) (Val (g j)))) [0..<n] (Val s)
       = Val (s + (\<Sum>j<n. f j * g j))"
  using assms by (induction n) (simp_all add: add.assoc)

lemma fold_cadd_cmul_right:
  assumes "\<And>j. j < n \<Longrightarrow> F j = Val (f j)"
  shows "fold (\<lambda>j sum. cadd sum (cmul (Val (g j)) (F j))) [0..<n] (Val s)
       = Val (s + (\<Sum>j<n. g j * f j))"
  using assms by (induction n) (simp_all add: add.assoc)

lemma ComputeMVDRWeights_finite_inverse:
  assumes inv: "matrixInverse C = Inr (map (map Val) Ci)" and len: "length a \<le> length Ci"
  shows "ComputeMVDRWeights C a
       = Inr (map (\<lambda>weight. cdiv weight
                      (Val (\<Sum>i<length a. cnj (a ! i) * (\<Sum>j<length a. Ci ! i ! j * a ! j))))
                (map (\<lambda>i. Val (\<Sum>j<length a. Ci ! i ! j * a ! j)) [0..<length a]))"
proof -
  let ?n = "length a"
  let ?inv = "map (map Val) Ci"
  let ?u = "\<lambda>i. \<Sum>j<?n. Ci ! i ! j * a ! j"
  let ?d = "\<Sum>i<?n. cnj (a ! i) * ?u i"
  have lenC: "length Ci = length C"
  proof (cases "length C = 0")
    case True
    with inv show ?thesis by (auto simp: matrixInverse_def Let_def tabulate_def)
  next
    case False
    then have "0 < length C" by simp
    from matrixInverse_shape(1) [OF inv this] show ?thesis by simp
  qed
  have row: "length (Ci ! i) = length C" if "i < length C" for i
    using matrixInverse_shape(2) [OF inv that] that lenC by simp
  have entry: "?inv ! i ! j = Val (Ci ! i ! j)" if "i < ?n" "j < ?n" for i j
    using that len lenC row [of i] by simp
  have w: "map (\<lambda>i. fold (\<lambda>j sum. cadd sum (cmul (?inv ! i ! j) (Val (a ! j)))) [0..<?n] (Val 0)) [0..<?n]
         = map (\<lambda>i. Val (?u i)) [0..<?n]"
  proof (rule map_cong [OF refl])
    fix i assume "i \<in> set [0..<?n]"
    then have i: "i < ?n" by simp
    have "fold (\<lambda>j sum. cadd sum (cmul (?inv ! i ! j) (Val (a ! j)))) [0..<?n] (Val 0)
        = Val (0 + (\<Sum>j<?n. Ci ! i ! j * a ! j))"
      by (rule fold_cadd_cmul_left) (rule entry [OF i])
    then show "fold (\<lambda>j sum. cadd sum (cmul (?inv ! i ! j) (Val (a ! j)))) [0..<?n] (Val 0) = Val (?u i)"
      by simp
  qed
  have d: "fold (\<lambda>i denom. cadd denom (cmul (Val (cnj (a ! i))) (map (\<lambda>i. Val (?u i)) [0..<?n] ! i)))
             [0..<?n] (Val 0) = Val ?d"
  proof -
    have "fold (\<lambda>i denom. cadd denom (cmul (Val (cnj (a ! i))) (map (\<lambda>i. Val (?u i)) [0..<?n] ! i)))
             [0..<?n] (Val 0) = Val (0 + (\<Sum>i<?n. cnj (a ! i) * ?u i))"
      by (rule fold_cadd_cmul_right) simp
    then show ?thesis by simp
  qed
  show ?thesis
    using len by (simp only: ComputeMVDRWeights_def Let_def inv bnd_Inr length_map w d)
      simp
qed

lemma ComputeMVDRWeights_distortionless:
  assumes inv: "matrixInverse C = Inr (map (map Val) Ci)" and len: "length a \<le> length Ci"
    and nz: "(\<Sum>i<length a. cnj (a ! i) * (\<Sum>j<length a. Ci ! i ! j * a ! j)) \<noteq> 0"
  shows "\<exists>ws. ComputeMVDRWeights C a = Inr (map Val ws) \<and> length ws = length a \<and>
              (\<Sum>i<length a. cnj (a ! i) * ws ! i) = 1"
proof -
  let ?n = "length a"
  let ?u = "\<lambda>i. \<Sum>j<?n. Ci ! i ! j * a ! j"
  let ?d = "\<Sum>i<?n. cnj (a ! i) * ?u i"
  have q: "map (\<lambda>weight. cdiv weight (Val ?d)) (map (\<lambda>i. Val (?u i)) [0..<?n])
         = map Val (map (\<lambda>i. ?u i / ?d) [0..<?n])"
    using nz by simp
  have r: "ComputeMVDRWeights C a = Inr (map Val (map (\<lambda>i. ?u i / ?d) [0..<?n]))"
    by (simp only: ComputeMVDRWeights_finite_inverse [OF inv len] q)
  have "(\<Sum>i<?n. cnj (a ! i) * map (\<lambda>i. ?u i / ?d) [0..<?n] ! i)
      = (\<Sum>i<?n. cnj (a ! i) * ?u i / ?d)"
    by (rule sum.cong) simp_all
  also have "\<dots> = ?d / ?d"
    by (simp only: sum_divide_distrib)
  also have "\<dots> = 1"
    using nz by simp
  finally have e: "(\<Sum>i<?n. cnj (a ! i) * map (\<lambda>i. ?u i / ?d) [0..<?n] ! i) = 1" .
  show ?thesis
  proof (intro exI [of _ "map (\<lambda>i. ?u i / ?d) [0..<?n]"] conjI)
    show "ComputeMVDRWeights C a = Inr (map Val (map (\<lambda>i. ?u i / ?d) [0..<?n]))"
      by (rule r)
    show "length (map (\<lambda>i. ?u i / ?d) [0..<?n]) = ?n"
      by simp
    show "(\<Sum>i<?n. cnj (a ! i) * map (\<lambda>i. ?u i / ?d) [0..<?n] ! i) = 1"
      by (rule e)
  qed
qed

subsection \<open>Finite and non-finite results\<close>

lemma cdiv_zero [simp]: "cdiv x (Val 0) = NaNInf"
  by (cases x) simp_all

lemma cdiv_NaNInf [simp]: "cdiv x NaNInf = NaNInf"
  by (cases x) simp_all

lemma cmul_NaNInf [simp]: "cmul x NaNInf = NaNInf"
  by (cases x) simp_all

lemma csub_NaNInf [simp]: "csub x NaNInf = NaNInf"
  by (cases x) simp_all

lemma cadd_NaNInf [simp]: "cadd x NaNInf = NaNInf"
  by (cases x) simp_all

lemma augmented_nth: "augmented n aug \<Longrightarrow> k < n \<Longrightarrow> length (aug ! k) = 2 * n"
  by (simp add: augmented_def list_all_length)

lemma eliminate_nth:
  assumes "augmented n aug" and "i < n" and "k < n" and "j < 2 * n"
  shows "eliminate n i aug ! k ! j =
           (if k = i then cdiv (aug ! i ! j) (aug ! i ! i)
            else csub (aug ! k ! j) (cmul (aug ! k ! i) (cdiv (aug ! i ! j) (aug ! i ! i))))"
  using assms augmented_nth [OF assms(1,2)]
  by (simp add: eliminate_def Let_def augmented_def)

lemma eliminate_augmented:
  assumes "augmented n aug" and "i < n"
  shows "augmented n (eliminate n i aug)"
  using assms augmented_nth [OF assms]
  by (simp add: eliminate_def Let_def augmented_def list_all_iff)

lemma finite_entries_iff:
  assumes "augmented n A"
  shows "finite_entries A \<longleftrightarrow> (\<forall>k<n. \<forall>j<2 * n. A ! k ! j \<noteq> NaNInf)"
  using assms by (auto simp: finite_entries_def augmented_def list_all_length)

lemma no_finite_entry_iff:
  assumes "augmented n A"
  shows "no_finite_entry A \<longleftrightarrow> (\<forall>k<n. \<forall>j<2 * n. A ! k ! j = NaNInf)"
  using assms by (auto simp: no_finite_entry_def augmented_def list_all_length)

lemma eliminate_bad_pivot:
  assumes "augmented n aug" and "i < n" and "aug ! i ! i = Val 0 \<or> aug ! i ! i = NaNInf"
  shows "no_finite_entry (eliminate n i aug)"
  unfolding no_finite_entry_iff [OF eliminate_augmented [OF assms(1,2)]]
  using assms(3) by (auto simp: eliminate_nth [OF assms(1,2)])

lemma eliminate_good_pivot:
  assumes "augmented n aug" and "i < n" and "finite_entries aug" and "aug ! i ! i \<noteq> Val 0"
  shows "finite_entries (eliminate n i aug)"
proof -
  have v: "\<exists>z. aug ! k ! j = Val z" if "k < n" "j < 2 * n" for k j
    using assms(3) that unfolding finite_entries_iff [OF assms(1)]
    by (cases "aug ! k ! j") auto
  from v [of i i] assms(2,4) obtain p where p: "aug ! i ! i = Val p" "p \<noteq> 0" by auto
  show ?thesis
    unfolding finite_entries_iff [OF eliminate_augmented [OF assms(1,2)]]
  proof (intro allI impI)
    fix k j assume k: "k < n" and j: "j < 2 * n"
    from v [OF k j] v [of k i] v [OF assms(2) j] k assms(2) p
    show "eliminate n i aug ! k ! j \<noteq> NaNInf"
      by (auto simp: eliminate_nth [OF assms(1,2) k j])
  qed
qed

lemma eliminate_dichotomy:
  assumes "augmented n aug" and "i < n" and "finite_entries aug \<or> no_finite_entry aug"
  shows "finite_entries (eliminate n i aug) \<or> no_finite_entry (eliminate n i aug)"
proof (cases "aug ! i ! i = Val 0 \<or> aug ! i ! i = NaNInf")
  case True
  from eliminate_bad_pivot [OF assms(1,2) this] show ?thesis ..
next
  case False
  with assms(1,2,3) have "finite_entries aug"
    by (auto simp: no_finite_entry_iff)
  from eliminate_good_pivot [OF assms(1,2) this] False show ?thesis by simp
qed

lemma fold_eliminate_dichotomy:
  assumes "augmented n aug" and "m \<le> n" and "finite_entries aug \<or> no_finite_entry aug"
  shows "augmented n (fold (eliminate n) [0..<m] aug) \<and>
         (finite_entries (fold (eliminate n) [0..<m] aug) \<or>
          no_finite_entry (fold (eliminate n) [0..<m] aug))"
  using assms(2)
proof (induction m)
  case 0
  with assms show ?case by simp
next
  case (Suc m)
  then have m: "m < n" and ih: "augmented n (fold (eliminate n) [0..<m] aug)"
      "finite_entries (fold (eliminate n) [0..<m] aug) \<or> no_finite_entry (fold (eliminate n) [0..<m] aug)"
    by simp_all
  from eliminate_augmented [OF ih(1) m] eliminate_dichotomy [OF ih(1) m ih(2)]
  show ?case by simp
qed

text \<open>
  The inverse that \<^verbatim>\<open>matrixInverse\<close> returns is finite in every entry or in none.
\<close>

lemma matrixInverse_dichotomy:
  assumes "matrixInverse C = Inr invCov"
  shows "list_all (list_all (\<lambda>x. x \<noteq> NaNInf)) invCov \<or> list_all (list_all (\<lambda>x. x = NaNInf)) invCov"
proof -
  let ?n = "length C"
  let ?start = "tabulate ?n (2 * ?n) (\<lambda>i j. if j < ?n then Val (C ! i ! j)
                                              else if j = ?n + i then Val 1 else Val 0)"
  let ?aug = "fold (eliminate ?n) [0..<?n] ?start"
  have a0: "augmented ?n ?start"
    by (simp add: augmented_def tabulate_def list_all_iff)
  have f0: "finite_entries ?start"
    by (auto simp: finite_entries_def tabulate_def list_all_iff)
  from f0 have fd: "finite_entries ?start \<or> no_finite_entry ?start" ..
  note r = fold_eliminate_dichotomy [OF a0 order_refl fd]
  have a: "augmented ?n ?aug"
    by (rule conjunct1 [OF r])
  have d: "finite_entries ?aug \<or> no_finite_entry ?aug"
    by (rule conjunct2 [OF r])
  from assms have inv: "invCov = tabulate ?n ?n (\<lambda>i j. ?aug ! i ! (?n + j))"
    by (auto simp: matrixInverse_def Let_def split: if_splits)
  from d show ?thesis
  proof
    assume "finite_entries ?aug"
    then have "\<forall>k<?n. \<forall>j<2 * ?n. ?aug ! k ! j \<noteq> NaNInf"
      by (simp only: finite_entries_iff [OF a])
    then have "list_all (list_all (\<lambda>x. x \<noteq> NaNInf)) invCov"
      unfolding inv by (simp add: tabulate_def list_all_iff)
    then show ?thesis ..
  next
    assume "no_finite_entry ?aug"
    then have "\<forall>k<?n. \<forall>j<2 * ?n. ?aug ! k ! j = NaNInf"
      by (simp only: no_finite_entry_iff [OF a])
    then have "list_all (list_all (\<lambda>x. x = NaNInf)) invCov"
      unfolding inv by (simp add: tabulate_def list_all_iff)
    then show ?thesis ..
  qed
qed


lemma fold_cadd_no_finite:
  assumes "0 < n" and "\<And>j. j < n \<Longrightarrow> F j = NaNInf"
  shows "fold (\<lambda>j sum. cadd sum (cmul (F j) (Val (g j)))) [0..<n] s = NaNInf"
  using assms by (cases n) simp_all

lemma ComputeMVDRWeights_no_finite_inverse:
  assumes inv: "matrixInverse C = Inr invCov" and len: "length a \<le> length invCov"
    and bad: "list_all (list_all (\<lambda>x. x = NaNInf)) invCov"
  shows "ComputeMVDRWeights C a = Inr (replicate (length a) NaNInf)"
proof -
  let ?n = "length a"
  have lenC: "length invCov = length C"
    using inv by (auto simp: matrixInverse_def Let_def split: if_splits)
  have entry: "invCov ! i ! j = NaNInf" if "i < ?n" "j < ?n" for i j
  proof -
    from that len lenC have i: "i < length C" by simp
    from matrixInverse_shape(2) [OF inv i] that len lenC have "j < length (invCov ! i)" by simp
    with bad i lenC show ?thesis by (simp add: list_all_length)
  qed
  have w: "map (\<lambda>i. fold (\<lambda>j sum. cadd sum (cmul (invCov ! i ! j) (Val (a ! j)))) [0..<?n] (Val 0)) [0..<?n]
         = map (\<lambda>i. NaNInf) [0..<?n]"
  proof (rule map_cong [OF refl])
    fix i assume "i \<in> set [0..<?n]"
    then have i: "i < ?n" by simp
    show "fold (\<lambda>j sum. cadd sum (cmul (invCov ! i ! j) (Val (a ! j)))) [0..<?n] (Val 0) = NaNInf"
    proof (rule fold_cadd_no_finite)
      from i show "0 < ?n" by (cases a) simp_all
      show "invCov ! i ! j = NaNInf" if "j < ?n" for j
        by (rule entry [OF i that])
    qed
  qed
  have "ComputeMVDRWeights C a = Inr (map (\<lambda>i. NaNInf) [0..<?n])"
    using len by (simp only: ComputeMVDRWeights_def Let_def inv bnd_Inr w) (simp add: o_def)
  then show ?thesis
    by (simp add: map_replicate_const)
qed

text \<open>
  The weights that \<^verbatim>\<open>ComputeMVDRWeights\<close> returns are all finite or all non-finite.
\<close>

lemma ComputeMVDRWeights_dichotomy:
  assumes "ComputeMVDRWeights C a = Inr ws"
  shows "list_all (\<lambda>x. x \<noteq> NaNInf) ws \<or> list_all (\<lambda>x. x = NaNInf) ws"
proof -
  from assms obtain invCov where inv: "matrixInverse C = Inr invCov"
    and len: "length a \<le> length invCov"
    by (cases "matrixInverse C") (auto simp: ComputeMVDRWeights_def Let_def split: if_splits)
  from matrixInverse_dichotomy [OF inv] show ?thesis
  proof
    assume fin: "list_all (list_all (\<lambda>x. x \<noteq> NaNInf)) invCov"
    define Ci where "Ci = map (map (\<lambda>x. case x of Val z \<Rightarrow> z | NaNInf \<Rightarrow> 0)) invCov"
    have "map (map Val) Ci = invCov"
      unfolding Ci_def map_map
    proof (rule map_idI)
      fix row assume "row \<in> set invCov"
      with fin have "list_all (\<lambda>x. x \<noteq> NaNInf) row" by (simp add: list_all_iff)
      then show "(map Val \<circ> map (\<lambda>x. case x of Val z \<Rightarrow> z | NaNInf \<Rightarrow> 0)) row = row"
        by (auto simp: list_all_iff intro!: map_idI split: c128.splits)
    qed
    with inv have inv': "matrixInverse C = Inr (map (map Val) Ci)" by simp
    from len have len': "length a \<le> length Ci" by (simp add: Ci_def)
    from ComputeMVDRWeights_finite_inverse [OF inv' len'] assms show ?thesis
      by (auto simp: list_all_iff)
  next
    assume "list_all (list_all (\<lambda>x. x = NaNInf)) invCov"
    from ComputeMVDRWeights_no_finite_inverse [OF inv len this] assms show ?thesis
      by (auto simp: list_all_iff)
  qed
qed

subsection \<open>Evaluations, norm and response\<close>

lemma upt_2: "[0..<2] = [0, Suc 0]"
  by (simp add: upt_rec)

lemma upt_4: "[0..<4] = [0, Suc 0, 2, 3]"
  by (simp add: upt_rec)

lemma matrixInverse_1: "matrixInverse [[1]] = Inr [[Val 1]]"
  by (simp add: matrixInverse_def eliminate_def tabulate_def Let_def upt_rec)

lemma matrixInverse_2:
  "matrixInverse [[2, 1], [1, 2]] = Inr (map (map Val) [[2 / 3, - (1 / 3)], [- (1 / 3), 2 / 3]])"
  by (simp add: matrixInverse_def eliminate_def tabulate_def Let_def upt_2 upt_4)

text \<open>
  A zero pivot: for \<open>C = [[0, 1], [1, 1]]\<close>, which is invertible, the first row is divided
  by \<open>C[0][0] = 0\<close> and no entry of the result is finite.
\<close>

lemma matrixInverse_zero_pivot:
  "matrixInverse [[0, 1], [1, 1]] = Inr [[NaNInf, NaNInf], [NaNInf, NaNInf]]"
  by (simp add: matrixInverse_def eliminate_def tabulate_def Let_def upt_2 upt_4)

lemma ComputeMVDRWeights_zero_pivot:
  "ComputeMVDRWeights [[0, 1], [1, 1]] [1, 1] = Inr [NaNInf, NaNInf]"
  by (simp add: ComputeMVDRWeights_def matrixInverse_zero_pivot Let_def upt_2)

text \<open>
  C5, as stated: all three operations return unit-norm weights. \<^verbatim>\<open>ComputeMVDRWeights\<close>
  never calls \<^verbatim>\<open>normalize\<close>; it divides by \<open>a\<^sup>H C\<^sup>-\<^sup>1 a\<close>. For \<open>C = [[1]]\<close> and \<open>a = [2]\<close> the
  result is \<open>[1/2]\<close>, of norm \<open>1/2\<close>.
\<close>

theorem ComputeMVDRWeights_norm_counterexample:
  "ComputeMVDRWeights [[1]] [2] = Inr [Val (1 / 2)] \<and> l2norm [1 / 2] = 1 / 2"
  by (simp add: ComputeMVDRWeights_def matrixInverse_1 Let_def upt_rec l2norm_def norm_divide
        real_sqrt_divide power_divide)

text \<open>
  C5, amended: \<^verbatim>\<open>ComputeConjugateBeamforming\<close> (for \<open>M \<ge> 1\<close> elements) and
  \<^verbatim>\<open>ComputeZOFBeamforming\<close> (when the superposed steering vectors are not all zero) return
  a weight vector of length \<open>M\<close> with unit Euclidean norm. \<^verbatim>\<open>ComputeMVDRWeights\<close>, when the
  inversion meets no zero pivot (its result \<open>C\<^sub>i\<close> is finite) and the scaling denominator
  \<open>a\<^sup>H C\<^sub>i a\<close> is not zero, returns a finite vector of the length of the steering vector
  that is scaled to unit response, \<open>a\<^sup>H w = 1\<close>; it is not normalized to unit norm.
\<close>

theorem weight_synthesis_normalization:
  "(1 \<le> WeightsCalculator.elementCount w \<longrightarrow>
      (\<exists>ws. ComputeConjugateBeamforming w theta = Inr ws \<and>
            length ws = nat (WeightsCalculator.elementCount w) \<and> l2norm ws = 1)) \<and>
   (0 \<le> WeightsCalculator.elementCount w \<and>
    list_ex (\<lambda>n. (\<Sum>angle\<leftarrow>angles. exp (Complex 0 (2 * pi * real n * elementSpacing w * sin angle))) \<noteq> 0)
            [0..<nat (WeightsCalculator.elementCount w)] \<longrightarrow>
      (\<exists>ws. ComputeZOFBeamforming w angles = Inr ws \<and>
            length ws = nat (WeightsCalculator.elementCount w) \<and> l2norm ws = 1)) \<and>
   (matrixInverse C = Inr (map (map Val) Ci) \<and> length a \<le> length Ci \<and>
    (\<Sum>i<length a. cnj (a ! i) * (\<Sum>j<length a. Ci ! i ! j * a ! j)) \<noteq> 0 \<longrightarrow>
      (\<exists>ws. ComputeMVDRWeights C a = Inr (map Val ws) \<and> length ws = length a \<and>
            (\<Sum>i<length a. cnj (a ! i) * ws ! i) = 1))"
  using ComputeConjugateBeamforming_unit [of w theta] ComputeZOFBeamforming_unit [of w angles]
    ComputeMVDRWeights_distortionless [of C Ci a]
  by blast

theorem weight_synthesis_normalization_witness:
  "(\<exists>ws. ComputeConjugateBeamforming \<lparr>WeightsCalculator.elementCount = 2, elementSpacing = 0.5\<rparr> 0 = Inr ws \<and>
         length ws = 2 \<and> l2norm ws = 1) \<and>
   (\<exists>ws. ComputeZOFBeamforming \<lparr>WeightsCalculator.elementCount = 2, elementSpacing = 0.5\<rparr> [0] = Inr ws \<and>
         length ws = 2 \<and> l2norm ws = 1) \<and>
   matrixInverse [[2, 1], [1, 2]] = Inr (map (map Val) [[2 / 3, - (1 / 3)], [- (1 / 3), 2 / 3]]) \<and>
   (\<exists>ws. ComputeMVDRWeights [[2, 1], [1, 2]] [1, 1] = Inr (map Val ws) \<and> length ws = 2 \<and>
         cnj 1 * ws ! 0 + cnj 1 * ws ! 1 = 1)"
  using weight_synthesis_normalization
          [of "\<lparr>WeightsCalculator.elementCount = 2, elementSpacing = 0.5\<rparr>" 0 "[0]"
              "[[2, 1], [1, 2]]" "[[2 / 3, - (1 / 3)], [- (1 / 3), 2 / 3]]" "[1, 1]"]
  by (simp add: matrixInverse_2 upt_2 exp_Complex_0 lessThan_Suc numeral_2_eq_2 add.commute)




section \<open>The rotation operator on a singular matrix\<close>

lemma tabulate_cong:
  assumes "\<And>i j. i < r \<Longrightarrow> j < c \<Longrightarrow> f i j = g i j"
  shows "tabulate r c f = tabulate r c g"
  using assms by (simp add: tabulate_def)

lemma mcols_tabulate [simp]: "0 < r \<Longrightarrow> mcols (tabulate r c f) = c"
  by (simp add: mcols_def tabulate_def upt_conv_Cons)

lemma Mul_gram:
  assumes "0 < mrows Us1" and "0 < mcols Us1"
  shows "Mul (tabulate (mcols Us1) (mrows Us1)
                (\<lambda>i j. tabulate (mrows Us1) (mcols Us1) (\<lambda>i j. Re (Us1 ! i ! j)) ! j ! i))
             (tabulate (mrows Us1) (mcols Us1) (\<lambda>i j. Re (Us1 ! i ! j)))
       = Inr (Us1TUs1 Us1)"
proof -
  let ?r = "mrows Us1" and ?c = "mcols Us1"
  let ?R = "tabulate ?r ?c (\<lambda>i j. Re (Us1 ! i ! j))"
  let ?T = "tabulate ?c ?r (\<lambda>i j. ?R ! j ! i)"
  have shape: "mcols ?T = mrows ?R" "mrows ?T = ?c" "mcols ?R = ?c"
    using assms by simp_all
  have "tabulate ?c ?c (\<lambda>i j. sum_list (map (\<lambda>k. ?T ! i ! k * ?R ! k ! j) [0..<?r]))
      = Us1TUs1 Us1"
    unfolding Us1TUs1_def
  proof (rule tabulate_cong)
    fix i j assume "i < ?c" "j < ?c"
    then show "sum_list (map (\<lambda>k. ?T ! i ! k * ?R ! k ! j) [0..<?r])
             = (\<Sum>k\<leftarrow>[0..<?r]. Re (Us1 ! k ! i) * Re (Us1 ! k ! j))"
      by (intro arg_cong [where f = sum_list] map_cong refl) simp
  qed
  then show ?thesis
    by (simp add: Mul_def shape)
qed

text \<open>
  C1, amended: for every signal subspace for which the inversion of \<open>Us1\<^sup>T Us1\<close> fails, and
  \<open>K \<ge> 1\<close>, \<^verbatim>\<open>solveRotationMatrix\<close> returns, with no error and no flag, the \<open>K\<close> by \<open>K\<close>
  diagonal matrix with entries \<open>exp(j\<pi>i/K)\<close>. The matrix depends on \<open>K\<close> alone and is an
  ordinary value of the result type, which has no field for a degenerate solve.
\<close>

theorem solveRotationMatrix_placeholder:
  assumes "0 < mrows Us1" and "0 < mcols Us1"
    and "covers Us2 (mrows Us1) (mcols Us1)"
    and "Dense_Inverse g (Us1TUs1 Us1) = None"
    and "0 < K"
  shows "solveRotationMatrix g Us1 Us2 K
       = Inr (tabulate (nat K) (nat K)
                (\<lambda>i j. if i = j then cis (real i * pi / real_of_int K) else 0))"
  using assms
  by (simp add: solveRotationMatrix_def Let_def NewDense_def Mul_gram exp_Complex_0 cong: if_cong)

lemma gram0: "Us1TUs1 [[0]] = [[0]]"
  by (simp add: Us1TUs1_def mrows_def mcols_def tabulate_def upt_rec)

lemma gram1: "Us1TUs1 [[1]] = [[1]]"
  by (simp add: Us1TUs1_def mrows_def mcols_def tabulate_def upt_rec)

lemma inv0: "Dense_Inverse diagonal_gonum [[0]] = None"
  by (simp add: diagonal_gonum_def upt_rec)

lemma inv1: "Dense_Inverse diagonal_gonum [[1]] = Some [[1]]"
  by (simp add: diagonal_gonum_def tabulate_def upt_rec)

text \<open>
  C1, as stated: a result for a non-invertible \<open>Us1\<^sup>T Us1\<close> carries a flag. For
  \<open>Us1 = [[0]]\<close> the inversion fails and the function returns \<open>[[1]]\<close>; that is also the
  rotation operator it returns for the regular subspace \<open>Us1 = Us2 = [[1]]\<close>, so nothing in
  the result tells the two apart.
\<close>

theorem solveRotationMatrix_counterexample:
  "Dense_Inverse diagonal_gonum (Us1TUs1 [[0]]) = None \<and>
   solveRotationMatrix diagonal_gonum [[0]] [[0]] 1 = Inr [[1]] \<and>
   Dense_Inverse diagonal_gonum (Us1TUs1 [[1]]) = Some [[1]] \<and>
   solveRotationMatrix diagonal_gonum [[1]] [[1]] 1 = Inr [[1]]"
proof -
  have a: "solveRotationMatrix diagonal_gonum [[0]] [[0]] 1 = Inr [[1]]"
    using Mul_gram [of "[[0]]"]
    by (simp add: solveRotationMatrix_def Let_def NewDense_def gram0 inv0 mrows_def mcols_def
          covers_def) (simp add: tabulate_def upt_rec exp_Complex_0)
  have b: "solveRotationMatrix diagonal_gonum [[1]] [[1]] 1 = Inr [[1]]"
    using Mul_gram [of "[[1]]"]
    by (simp add: solveRotationMatrix_def Let_def NewDense_def gram1 inv1 mrows_def mcols_def
          covers_def) (simp add: tabulate_def upt_rec Mul_def mrows_def mcols_def covers_def)
  show ?thesis
    using a b by (simp add: gram0 gram1 inv0 inv1)
qed

theorem solveRotationMatrix_placeholder_witness:
  "0 < mrows [[0::complex]] \<and> 0 < mcols [[0::complex]] \<and>
   covers [[0::complex]] (mrows [[0::complex]]) (mcols [[0::complex]]) \<and>
   Dense_Inverse diagonal_gonum (Us1TUs1 [[0]]) = None \<and> (0::int) < 2 \<and>
   solveRotationMatrix diagonal_gonum [[0]] [[0]] 2 = Inr [[1, 0], [0, \<i>]]"
  using solveRotationMatrix_placeholder [of "[[0]]" "[[0]]" diagonal_gonum 2]
  by (simp add: gram0 inv0 mrows_def mcols_def covers_def tabulate_def upt_rec complex_eq_iff)

section \<open>The exchange sort\<close>

lemma exchange_length [simp]: "length (exchange key i j xs) = length xs"
  by (simp add: exchange_def)

lemma exchange_mset:
  "i < length xs \<Longrightarrow> j < length xs \<Longrightarrow> mset (exchange key i j xs) = mset xs"
  by (simp add: exchange_def mset_swap)

lemma exchange_take:
  "i \<le> j \<Longrightarrow> take i (exchange key i j xs) = take i xs"
  by (simp add: exchange_def)

lemma exchange_keys:
  assumes "i < j" and "j < length xs"
  shows "key (exchange key i j xs ! j) \<le> key (exchange key i j xs ! i) \<and>
         key (xs ! i) \<le> key (exchange key i j xs ! i) \<and>
         (\<forall>l. l \<noteq> i \<and> l \<noteq> j \<longrightarrow> exchange key i j xs ! l = xs ! l)"
  using assms by (auto simp: exchange_def)

lemma inner_exchange:
  assumes "i < length ys" and "n \<le> length ys"
  shows "length (fold (exchange key i) [Suc i..<n] ys) = length ys \<and>
         mset (fold (exchange key i) [Suc i..<n] ys) = mset ys \<and>
         take i (fold (exchange key i) [Suc i..<n] ys) = take i ys \<and>
         (\<forall>j. i < j \<and> j < n \<longrightarrow>
            key (fold (exchange key i) [Suc i..<n] ys ! j)
              \<le> key (fold (exchange key i) [Suc i..<n] ys ! i))"
  using assms(2)
proof (induction n)
  case 0
  show ?case by simp
next
  case (Suc n)
  show ?case
  proof (cases "i < n")
    case False
    then have "[Suc i..<Suc n] = []" by simp
    with False show ?thesis by auto
  next
    case True
    let ?zs = "fold (exchange key i) [Suc i..<n] ys"
    from True have split: "[Suc i..<Suc n] = [Suc i..<n] @ [n]" by simp
    have step: "fold (exchange key i) [Suc i..<Suc n] ys = exchange key i n ?zs"
      by (simp only: split fold_append) simp
    from Suc have ih: "length ?zs = length ys" "mset ?zs = mset ys" "take i ?zs = take i ys"
      "\<And>j. i < j \<Longrightarrow> j < n \<Longrightarrow> key (?zs ! j) \<le> key (?zs ! i)"
      by auto
    from Suc.prems ih(1) have n: "n < length ?zs" by simp
    from assms(1) ih(1) have i: "i < length ?zs" by simp
    note k = exchange_keys [OF True n, of key]
    have "key (exchange key i n ?zs ! j) \<le> key (exchange key i n ?zs ! i)"
      if "i < j" "j < Suc n" for j
    proof (cases "j = n")
      case True
      with k show ?thesis by simp
    next
      case False
      with that have "j < n" "j \<noteq> i" by auto
      with k that False have "exchange key i n ?zs ! j = ?zs ! j" by simp
      moreover have "key (?zs ! j) \<le> key (?zs ! i)" using ih(4) that(1) \<open>j < n\<close> by simp
      ultimately show ?thesis using k by simp
    qed
    moreover have "take i (exchange key i n ?zs) = take i ys"
      using True ih(3) by (simp add: exchange_take)
    moreover have "mset (exchange key i n ?zs) = mset ys"
      using exchange_mset [OF i n] ih(2) by simp
    ultimately show ?thesis
      using ih(1) by (simp only: step exchange_length) blast
  qed
qed

lemma exchange_sort_Suc:
  "exchange_sort key (Suc m) xs
     = fold (exchange key m) [Suc m..<length xs] (exchange_sort key m xs)"
  by (simp add: exchange_sort_def)

lemma exchange_sort_invariant:
  assumes "m \<le> length xs"
  shows "length (exchange_sort key m xs) = length xs \<and>
         mset (exchange_sort key m xs) = mset xs \<and>
         (\<forall>a b. a < m \<and> a < b \<and> b < length xs \<longrightarrow>
            key (exchange_sort key m xs ! b) \<le> key (exchange_sort key m xs ! a))"
  using assms
proof (induction m)
  case 0
  show ?case by (simp add: exchange_sort_def)
next
  case (Suc m)
  let ?ys = "exchange_sort key m xs"
  let ?zs = "fold (exchange key m) [Suc m..<length xs] ?ys"
  from Suc have ih: "length ?ys = length xs" "mset ?ys = mset xs"
    "\<And>a b. a < m \<Longrightarrow> a < b \<Longrightarrow> b < length xs \<Longrightarrow> key (?ys ! b) \<le> key (?ys ! a)"
    by auto
  from Suc.prems ih(1) have m: "m < length ?ys" by simp
  have "length xs \<le> length ?ys" using ih(1) by simp
  from inner_exchange [OF m this, of key]
  have inner: "length ?zs = length ys'" "mset ?zs = mset ?ys" "take m ?zs = take m ?ys"
    "\<And>j. m < j \<Longrightarrow> j < length xs \<Longrightarrow> key (?zs ! j) \<le> key (?zs ! m)"
    if "ys' = ?ys" for ys'
    using that by auto
  note inner = inner [OF refl]
  have len: "length ?zs = length xs" using inner(1) ih(1) by simp
  have low: "?zs ! a = ?ys ! a" if "a < m" for a
    using that inner(3) by (metis nth_take)
  have "mset (take m ?zs) + mset (drop m ?zs) = mset (take m ?ys) + mset (drop m ?ys)"
    using inner(2) by (simp only: mset_append [symmetric] append_take_drop_id)
  then have tail: "mset (drop m ?zs) = mset (drop m ?ys)"
    by (simp add: inner(3))
  have "key (?zs ! b) \<le> key (?zs ! a)" if "a < Suc m" "a < b" "b < length xs" for a b
  proof (cases "a = m")
    case True
    with that inner(4) show ?thesis by simp
  next
    case False
    with that have a: "a < m" by simp
    show ?thesis
    proof (cases "b < m")
      case True
      with a that ih(3) low show ?thesis by simp
    next
      case False
      then have "?zs ! b = drop m ?zs ! (b - m)" using that len by simp
      moreover have "b - m < length (drop m ?zs)" using False that len by simp
      ultimately have "?zs ! b \<in> set (drop m ?zs)" by (metis nth_mem)
      then have "?zs ! b \<in> set (drop m ?ys)" using tail by (metis set_mset_mset)
      then obtain c where c: "c < length (drop m ?ys)" "drop m ?ys ! c = ?zs ! b"
        by (auto simp: in_set_conv_nth)
      then have "?ys ! (m + c) = ?zs ! b" "m + c < length xs" using ih(1) by auto
      with ih(3) [of a "m + c"] a low [OF a] show ?thesis by simp
    qed
  qed
  then show ?case
    using len inner(2) ih(2) by (simp only: exchange_sort_Suc) blast
qed

lemma exchange_sort_sorted:
  assumes "length xs - 1 \<le> m" and "m \<le> length xs"
  shows "sorted_wrt (\<lambda>p q. key q \<le> key p) (exchange_sort key m xs)"
proof -
  note inv = exchange_sort_invariant [OF assms(2), of key]
  show ?thesis
    unfolding sorted_wrt_iff_nth_less
  proof (intro allI impI)
    fix i j assume "i < j" "j < length (exchange_sort key m xs)"
    with inv assms(1) have "i < m" "j < length xs" by auto
    with inv \<open>i < j\<close> show "key (exchange_sort key m xs ! j) \<le> key (exchange_sort key m xs ! i)"
      by blast
  qed
qed

section \<open>Peak search\<close>

lemma findPeaks_Inr:
  assumes "findPeaks spectrum K = Inr angles"
  shows "0 \<le> K \<and>
         (\<exists>ps. mset ps = mset (map (\<lambda>i. \<lparr>peak_index = i, peak_value = spectrum ! i\<rparr>)
                                 (strict_local_maxima spectrum)) \<and>
               sorted_wrt (\<lambda>p q. peak_value q \<le> peak_value p) ps \<and>
               angles = map (\<lambda>p. - pi / 2 + real (peak_index p) * pi / real (length spectrum))
                            (take (nat K) ps))"
proof -
  let ?peaks = "map (\<lambda>i. \<lparr>peak_index = i, peak_value = spectrum ! i\<rparr>) (strict_local_maxima spectrum)"
  let ?sorted = "exchange_sort peak_value (length ?peaks - 1) ?peaks"
  have peaks: "map (\<lambda>i. \<lparr>peak_index = i, peak_value = spectrum ! i\<rparr>)
                 (filter (\<lambda>i. spectrum ! i > spectrum ! (i - 1) \<and> spectrum ! i > spectrum ! (i + 1))
                         [1..<length spectrum - 1]) = ?peaks"
    by (simp add: strict_local_maxima_def)
  have inv: "length ?sorted = length ?peaks" "mset ?sorted = mset ?peaks"
    using exchange_sort_invariant [of "length ?peaks - 1" ?peaks peak_value] by simp_all
  have sorted: "sorted_wrt (\<lambda>p q. peak_value q \<le> peak_value p) ?sorted"
    by (rule exchange_sort_sorted) simp_all
  from assms have r: "0 \<le> K \<and>
      angles = map (\<lambda>p. - pi / 2 + real (peak_index p) * pi / real (length spectrum))
                   (take (nat K) ?sorted)"
    unfolding findPeaks_def Let_def peaks
    by (auto split: if_splits)
  with inv(2) sorted show ?thesis by blast
qed

lemma findPeaks_length:
  assumes "findPeaks spectrum K = Inr angles"
  shows "length angles = min (nat K) (length (strict_local_maxima spectrum))"
proof -
  from findPeaks_Inr [OF assms] obtain ps where
    ps: "mset ps = mset (map (\<lambda>i. \<lparr>peak_index = i, peak_value = spectrum ! i\<rparr>)
                                 (strict_local_maxima spectrum))"
       "angles = map (\<lambda>p. - pi / 2 + real (peak_index p) * pi / real (length spectrum))
                            (take (nat K) ps)"
    by blast
  from ps(1) have "length ps = length (strict_local_maxima spectrum)"
    by (metis length_map size_mset)
  with ps(2) show ?thesis by simp
qed

lemma findPeaks_example: "findPeaks [0, 2, 0, 3, 0] 1 = Inr [- pi / 2 + 3 * pi / 5]"
proof -
  have u: "[1..<4] = [1, 2, 3]" "[0..<Suc 0] = [0]" "[Suc 0..<2] = [Suc 0]"
    by (simp_all add: upt_rec)
  show ?thesis
    by (simp add: findPeaks_def Let_def u exchange_sort_def exchange_def)
qed

lemma findPeaks_returns:
  assumes "0 \<le> K"
  shows "\<exists>angles. findPeaks spectrum K = Inr angles"
  using assms by (simp add: findPeaks_def Let_def)

section \<open>The MUSIC spectrum\<close>

lemma fold_projection:
  "fold (\<lambda>n proj. proj + cnj (u ! n) * map s [0..<m] ! n) [0..<m] (0::complex)
     = (\<Sum>n<m. cnj (u ! n) * s n)"
proof -
  have "fold (\<lambda>n proj. proj + cnj (u ! n) * map s [0..<m] ! n) [0..<m] (0::complex)
      = (\<Sum>n<m. cnj (u ! n) * map s [0..<m] ! n)"
    by (simp add: fold_add_sum)
  also have "\<dots> = (\<Sum>n<m. cnj (u ! n) * s n)"
    by (rule sum.cong) simp_all
  finally show ?thesis .
qed

lemma fold_energy:
  fixes g :: "complex list \<Rightarrow> complex"
  shows "fold (\<lambda>k denom. denom + cmod (g (U ! k)) * cmod (g (U ! k))) [0..<length U] (0::real)
       = (\<Sum>u\<leftarrow>U. (cmod (g u))\<^sup>2)"
proof -
  have "fold (\<lambda>k denom. denom + cmod (g (U ! k)) * cmod (g (U ! k))) [0..<length U] (0::real)
      = (\<Sum>k<length U. (cmod (g (U ! k)))\<^sup>2)"
    by (simp add: fold_add_sum power2_eq_square)
  also have "\<dots> = (\<Sum>u\<leftarrow>U. (cmod (g u))\<^sup>2)"
    by (simp add: sum_list_sum_nth lessThan_atLeast0)
  finally show ?thesis .
qed

lemma music_denom_eq:
  "music_denom M U i = projection_energy (nat M) U (- pi / 2 + real i * pi / 360)"
  unfolding music_denom_def projection_energy_def Let_def fold_projection
  by (simp only: fold_energy [of "\<lambda>u. \<Sum>n<nat M. cnj (u ! n) * exp (Complex 0 (2 * pi * real n * 0.5 * sin (- pi / 2 + real i * pi / real 360)))"])
     (simp add: exp_Complex_0)

lemma music_spectrum_length [simp]: "length (music_spectrum M U) = 360"
  by (simp add: music_spectrum_def)

lemma music_spectrum_nth:
  assumes "i < 360"
  shows "music_spectrum M U ! i
       = (if projection_energy (nat M) U (- pi / 2 + real i * pi / 360) > 1 / 10 ^ 10
          then 1 / projection_energy (nat M) U (- pi / 2 + real i * pi / 360) else 10 ^ 10)"
  using assms by (simp add: music_spectrum_def Let_def music_denom_eq)

lemma musicAlgorithm_Inr:
  assumes "musicAlgorithm data params = Inr (spectrum, angles)"
  shows "\<exists>X covMatrix eigenvalues eigenvectors U.
           generateReceivedSignal data params = Inr X \<and>
           Estimator_computeCovarianceMatrix X = Inr covMatrix \<and>
           eigenDecomposition covMatrix = Inr (eigenvalues, eigenvectors) \<and>
           extractNoiseSubspace eigenvectors (DOAParams.NumSources params) = Inr U \<and>
           spectrum = music_spectrum (DOAParams.ElementCount params) U \<and>
           findPeaks spectrum (DOAParams.NumSources params) = Inr angles"
  using assms unfolding musicAlgorithm_def Let_def
  by (auto simp: bnd_Inr_iff split: if_splits prod.splits)

lemma unit_projection:
  assumes "r < n"
  shows "(\<Sum>m<n. cnj (unit_vector n r ! m) * s m) = s r"
proof -
  have "(\<Sum>m<n. cnj (unit_vector n r ! m) * s m) = (\<Sum>m<n. if r = m then s m else 0)"
    by (rule sum.cong) (simp_all add: unit_vector_def)
  also have "\<dots> = s r"
    using assms by simp
  finally show ?thesis .
qed

lemma eigenDecomposition_units:
  assumes "eigenDecomposition C = Inr (ev, evec)"
  shows "length evec = length C \<and> (\<forall>u\<in>set evec. \<exists>r<length C. u = unit_vector (length C) r)"
proof -
  let ?n = "length C"
  let ?id = "tabulate ?n ?n (\<lambda>i j. if i = j then (1::complex) else 0)"
  let ?evals = "map (\<lambda>i. fold (\<lambda>j sum. sum + cmod (C ! i ! j) * cmod (C ! i ! j)) [0..<?n] 0 / real ?n) [0..<?n]"
  let ?sorted = "exchange_sort fst ?n (zip ?evals ?id)"
  from assms have evec: "evec = map snd ?sorted"
    by (auto simp: eigenDecomposition_def Let_def split: if_splits)
  have len: "length (zip ?evals ?id) = ?n" by simp
  have inv: "length ?sorted = ?n" "mset ?sorted = mset (zip ?evals ?id)"
    using exchange_sort_invariant [of ?n "zip ?evals ?id" fst] len by simp_all
  have "set evec = snd ` set_mset (mset ?sorted)"
    by (simp add: evec)
  also have "\<dots> = snd ` set (zip ?evals ?id)"
    by (simp only: inv(2) set_mset_mset)
  also have "\<dots> = set (map snd (zip ?evals ?id))"
    by (simp only: set_map)
  also have "map snd (zip ?evals ?id) = ?id"
    by (rule map_snd_zip) simp
  finally have "set evec = set ?id" .
  moreover have "\<exists>r<?n. u = unit_vector ?n r" if "u \<in> set ?id" for u
    using that by (auto simp: tabulate_def unit_vector_def)
  ultimately show ?thesis
    using inv(1) by (simp add: evec)
qed

lemma extractNoiseSubspace_Inr:
  assumes "extractNoiseSubspace evec K = Inr U"
  shows "0 \<le> K \<and> K \<le> int (length evec) \<and> length U = nat (int (length evec) - K) \<and>
         set U \<subseteq> set evec"
  using assms
  by (auto simp: extractNoiseSubspace_def Let_def make_slice_def bnd_Inr_iff split: if_splits)

lemma projection_energy_units:
  assumes "\<And>u. u \<in> set U \<Longrightarrow> \<exists>r<M. u = unit_vector M r"
  shows "projection_energy M U theta = real (length U)"
proof -
  have "(cmod (\<Sum>n<M. cnj (u ! n) * cis (2 * pi * real n * 0.5 * sin theta)))\<^sup>2 = 1"
    if "u \<in> set U" for u
  proof -
    from assms [OF that] obtain r where "r < M" "u = unit_vector M r" by blast
    then show ?thesis by (simp add: unit_projection)
  qed
  then have "map (\<lambda>u. (cmod (\<Sum>n<M. cnj (u ! n) * cis (2 * pi * real n * 0.5 * sin theta)))\<^sup>2) U
           = map (\<lambda>u. 1) U"
    by (intro map_cong refl)
  then show ?thesis
    by (simp add: projection_energy_def sum_list_triv del: map_eq_conv)
qed

lemma strict_local_maxima_flat: "strict_local_maxima (replicate n c) = []"
  by (auto simp: strict_local_maxima_def filter_empty_conv)

lemma findPeaks_flat:
  assumes "0 \<le> K"
  shows "findPeaks (replicate n c) K = Inr []"
proof -
  from findPeaks_returns [OF assms] obtain angles where a: "findPeaks (replicate n c) K = Inr angles"
    by blast
  from findPeaks_length [OF a] have "angles = []"
    by (simp add: strict_local_maxima_flat)
  with a show ?thesis by simp
qed

lemma generateReceivedSignal_Inr:
  assumes "0 \<le> DOAParams.ElementCount params" and "0 \<le> DOAParams.SnapshotLength params"
    and "0 \<le> DOAParams.NumSources params" and "data \<noteq> []"
  shows "\<exists>X. generateReceivedSignal data params = Inr X \<and>
             length X = nat (DOAParams.ElementCount params) \<and>
             (\<forall>row\<in>set X. length row = nat (DOAParams.SnapshotLength params))"
  using assms
  by (auto simp: generateReceivedSignal_def Let_def make_slice_def tabulate_def)

lemma Estimator_computeCovarianceMatrix_Inr:
  assumes "X \<noteq> []" and "\<forall>row\<in>set X. length row = n"
  shows "\<exists>C. Estimator_computeCovarianceMatrix X = Inr C \<and> length C = length X \<and>
             (\<forall>row\<in>set C. length row = length X)"
proof -
  from assms have "length (X ! 0) = n" by (cases X) auto
  with assms(2) have "\<not> list_ex (\<lambda>row. length row < length (X ! 0)) X"
    by (auto simp: list_ex_iff)
  with assms(1) show ?thesis
    by (auto simp: Estimator_computeCovarianceMatrix_def Let_def tabulate_def)
qed

lemma eigenDecomposition_returns:
  assumes "\<forall>row\<in>set C. length row = length C"
  shows "\<exists>ev evec. eigenDecomposition C = Inr (ev, evec)"
proof -
  from assms have "\<not> list_ex (\<lambda>row. length row < length C) C"
    by (auto simp: list_ex_iff)
  then show ?thesis
    by (simp add: eigenDecomposition_def Let_def)
qed

lemma extractNoiseSubspace_returns:
  assumes "0 \<le> K" and "K \<le> int (length evec)"
  shows "\<exists>U. extractNoiseSubspace evec K = Inr U"
  using assms by (simp add: extractNoiseSubspace_def Let_def make_slice_def)

lemma music_spectrum_units:
  assumes "\<And>u. u \<in> set U \<Longrightarrow> \<exists>r<nat M. u = unit_vector (nat M) r"
  shows "music_spectrum M U
       = replicate 360 (if real (length U) > 1 / 10 ^ 10 then 1 / real (length U) else 10 ^ 10)"
proof -
  have "music_denom M U i = real (length U)" for i
    by (simp only: music_denom_eq projection_energy_units [of U "nat M", OF assms])
  then show ?thesis
    by (simp add: music_spectrum_def Let_def map_replicate_const)
qed

lemma musicAlgorithm_flat:
  assumes M: "1 \<le> DOAParams.ElementCount params"
    and K: "0 \<le> DOAParams.NumSources params" "DOAParams.NumSources params \<le> DOAParams.ElementCount params"
    and N: "0 \<le> DOAParams.SnapshotLength params"
    and data: "data \<noteq> []"
  shows "musicAlgorithm data params
       = Inr (replicate 360
                (if DOAParams.NumSources params < DOAParams.ElementCount params
                 then 1 / real_of_int (DOAParams.ElementCount params - DOAParams.NumSources params)
                 else 10 ^ 10), [])"
proof -
  let ?M = "DOAParams.ElementCount params" and ?K = "DOAParams.NumSources params"
  from generateReceivedSignal_Inr [OF _ N K(1) data] M obtain X where
    X: "generateReceivedSignal data params = Inr X" "length X = nat ?M"
       "\<forall>row\<in>set X. length row = nat (DOAParams.SnapshotLength params)"
    by auto
  from X(2) M have "X \<noteq> []" by auto
  from Estimator_computeCovarianceMatrix_Inr [OF this X(3)] obtain C where
    C: "Estimator_computeCovarianceMatrix X = Inr C" "length C = length X"
       "\<forall>row\<in>set C. length row = length X"
    by blast
  from C(2,3) have "\<forall>row\<in>set C. length row = length C" by simp
  from eigenDecomposition_returns [OF this] obtain ev evec where
    E: "eigenDecomposition C = Inr (ev, evec)" by blast
  from eigenDecomposition_units [OF E] C(2) X(2)
  have evec: "length evec = nat ?M" "\<forall>u\<in>set evec. \<exists>r<nat ?M. u = unit_vector (nat ?M) r"
    by simp_all
  from evec(1) K M have "?K \<le> int (length evec)" by simp
  from extractNoiseSubspace_returns [OF K(1) this] obtain U where
    U: "extractNoiseSubspace evec ?K = Inr U" by blast
  from extractNoiseSubspace_Inr [OF U] evec(1) M
  have lenU: "length U = nat (?M - ?K)" and sub: "set U \<subseteq> set evec" by simp_all
  have units: "\<exists>r<nat ?M. u = unit_vector (nat ?M) r" if "u \<in> set U" for u
    using that sub evec(2) by blast
  have rowlen: "\<not> list_ex (\<lambda>u. int (length u) < ?M) U"
  proof -
    have "length u = nat ?M" if "u \<in> set U" for u
      using units [OF that] by (auto simp: unit_vector_def)
    then show ?thesis using M by (auto simp: list_ex_iff)
  qed
  have spec: "music_spectrum ?M U
     = replicate 360 (if ?K < ?M then 1 / real_of_int (?M - ?K) else 10 ^ 10)"
  proof (cases "?K < ?M")
    case True
    then have "1 \<le> real (length U)" using lenU by simp
    moreover have "(1::real) / 10 ^ 10 < 1" by simp
    ultimately have "real (length U) > 1 / 10 ^ 10" by linarith
    with True lenU show ?thesis
      by (simp only: music_spectrum_units [of U ?M, OF units]) simp
  next
    case False
    with K lenU have "length U = 0" by simp
    with False show ?thesis
      by (simp only: music_spectrum_units [of U ?M, OF units]) simp
  qed
  show ?thesis
    using X(1) C(1) E U M rowlen
    by (simp add: musicAlgorithm_def make_slice_def spec findPeaks_flat [OF K(1)])
qed

section \<open>The MUSIC estimator on a covariance matrix\<close>

lemma for_each_Inr:
  assumes "\<And>x. x \<in> set xs \<Longrightarrow> f x = Inr (g x)"
  shows "for_each f xs = Inr (map g xs)"
  using assms by (induction xs) simp_all

lemma for_each_length:
  "for_each f xs = Inr ys \<Longrightarrow> length ys = length xs"
  by (induction xs arbitrary: ys) (auto simp: bnd_Inr_iff)

lemma ComputeSpectrum_length:
  assumes "ComputeSpectrum m C angles = Inr spectrum"
  shows "length spectrum = length angles"
  using assms unfolding ComputeSpectrum_def Let_def
  by (auto simp: bnd_Inr_iff for_each_length split: if_splits prod.splits)

lemma findPeaks_MUSIC_findPeaks:
  "findPeaks spectrum K
   = bnd (MUSIC_findPeaks spectrum K)
       (\<lambda>peaks. Inr (map (\<lambda>p. - pi / 2 + real p * pi / real (length spectrum)) peaks))"
  by (simp add: findPeaks_def MUSIC_findPeaks_def Let_def o_def)

lemma MUSIC_findPeaks_range:
  assumes "MUSIC_findPeaks spectrum K = Inr peaks"
  shows "\<forall>p\<in>set peaks. p < length spectrum"
proof -
  define cand where "cand = filter (\<lambda>i. spectrum ! i > spectrum ! (i - 1) \<and> spectrum ! i > spectrum ! (i + 1))
                            [1..<length spectrum - 1]"
  define ps where "ps = map (\<lambda>i. \<lparr>peak_index = i, peak_value = spectrum ! i\<rparr>) cand"
  define sorted where "sorted = exchange_sort peak_value (length ps - 1) ps"
  have "mset sorted = mset ps"
    unfolding sorted_def using exchange_sort_invariant [of "length ps - 1" ps peak_value] by simp
  then have "set sorted = set ps" by (rule mset_eq_setD)
  moreover have "\<forall>p\<in>set ps. peak_index p < length spectrum"
    unfolding ps_def cand_def by auto
  ultimately have bound: "\<forall>p\<in>set sorted. peak_index p < length spectrum" by simp
  from assms have c: "peaks = map peak_index sorted \<or> peaks = map peak_index (take (nat K) sorted)"
    unfolding MUSIC_findPeaks_def Let_def cand_def [symmetric] ps_def [symmetric] sorted_def [symmetric]
    by (simp add: bnd_Inr_iff split: if_splits)
  show ?thesis
  proof
    fix p assume "p \<in> set peaks"
    with c obtain x where x: "p = peak_index x" "x \<in> set sorted \<or> x \<in> set (take (nat K) sorted)"
      by (elim disjE) (simp_all add: image_iff, blast+)
    then have "x \<in> set sorted"
      using set_take_subset [of "nat K" sorted] by blast
    with bound x(1) show "p < length spectrum" by simp
  qed
qed

lemma MUSIC_EstimateDOA_Inr:
  assumes "MUSIC_EstimateDOA m C = Inr angles"
  shows "\<exists>spectrum. ComputeSpectrum m C (map (\<lambda>i. - pi / 2 + real i * pi / 360) [0..<360]) = Inr spectrum \<and>
           length spectrum = 360 \<and> findPeaks spectrum (MUSIC.numSources m) = Inr angles"
proof -
  let ?grid = "map (\<lambda>i. - pi / 2 + real i * pi / 360) [0..<360]"
  from assms obtain spectrum peaks where
    s: "ComputeSpectrum m C ?grid = Inr spectrum"
    and p: "MUSIC_findPeaks spectrum (MUSIC.numSources m) = Inr peaks"
    and a: "angles = map (\<lambda>p. ?grid ! p) peaks"
    unfolding MUSIC_EstimateDOA_def Let_def
    by (auto simp: bnd_Inr_iff split: if_splits)
  from ComputeSpectrum_length [OF s] have len: "length spectrum = 360" by simp
  from MUSIC_findPeaks_range [OF p] len have "\<forall>p\<in>set peaks. p < 360" by simp
  then have "map (\<lambda>p. ?grid ! p) peaks = map (\<lambda>p. - pi / 2 + real p * pi / 360) peaks"
    by (intro map_cong refl) simp
  with a p len have "findPeaks spectrum (MUSIC.numSources m) = Inr angles"
    by (simp add: findPeaks_MUSIC_findPeaks)
  with s len show ?thesis by blast
qed

lemma MUSIC_findPeaks_flat:
  assumes "0 \<le> K"
  shows "MUSIC_findPeaks (replicate n c) K = Inr []"
proof -
  from findPeaks_flat [OF assms, of n c]
  have "bnd (MUSIC_findPeaks (replicate n c) K)
          (\<lambda>peaks. Inr (map (\<lambda>p. - pi / 2 + real p * pi / real (length (replicate n c))) peaks))
        = Inr []"
    by (simp only: findPeaks_MUSIC_findPeaks)
  then show ?thesis
    by (auto simp: bnd_Inr_iff)
qed

lemma MUSIC_findPeaks_returns:
  assumes "0 \<le> K"
  shows "\<exists>peaks. MUSIC_findPeaks spectrum K = Inr peaks"
  using assms by (simp add: MUSIC_findPeaks_def Let_def)

lemma MUSIC_eigenDecomposition_units:
  assumes "MUSIC_eigenDecomposition C = Inr (ev, evec)"
  shows "length evec = length C \<and> (\<forall>u\<in>set evec. \<exists>r<length C. u = unit_vector (length C) r)"
proof -
  let ?n = "length C"
  let ?id = "tabulate ?n ?n (\<lambda>i j. if i = j then (1::complex) else 0)"
  let ?evals = "map (\<lambda>i. fold (\<lambda>j sum. let absVal = cmod (C ! i ! j) in sum + absVal * absVal) [0..<?n] 0 / real ?n) [0..<?n]"
  let ?sorted = "exchange_sort fst (?n - 1) (zip ?evals ?id)"
  from assms have evec: "evec = map snd ?sorted"
    by (auto simp: MUSIC_eigenDecomposition_def Let_def split: if_splits)
  have len: "length (zip ?evals ?id) = ?n" by simp
  have inv: "length ?sorted = ?n" "mset ?sorted = mset (zip ?evals ?id)"
    using exchange_sort_invariant [of "?n - 1" "zip ?evals ?id" fst] len by simp_all
  have "set evec = snd ` set_mset (mset ?sorted)"
    by (simp add: evec)
  also have "\<dots> = snd ` set (zip ?evals ?id)"
    by (simp only: inv(2) set_mset_mset)
  also have "\<dots> = set (map snd (zip ?evals ?id))"
    by (simp only: set_map)
  also have "map snd (zip ?evals ?id) = ?id"
    by (rule map_snd_zip) simp
  finally have "set evec = set ?id" .
  moreover have "\<exists>r<?n. u = unit_vector ?n r" if "u \<in> set ?id" for u
    using that by (auto simp: tabulate_def unit_vector_def)
  ultimately show ?thesis
    using inv(1) by (simp add: evec)
qed

lemma MUSIC_EstimateDOA_returns:
  assumes sq: "\<forall>row\<in>set C. length row = length C"
    and K: "0 \<le> MUSIC.numSources m" "MUSIC.numSources m \<le> MUSIC.elementCount m"
    and M: "MUSIC.elementCount m \<le> int (length C)"
  shows "\<exists>angles. MUSIC_EstimateDOA m C = Inr angles"
proof -
  let ?M = "MUSIC.elementCount m" and ?K = "MUSIC.numSources m"
  let ?grid = "map (\<lambda>i. - pi / 2 + real i * pi / real (360::nat)) [0..<360]"
  from sq have "\<not> list_ex (\<lambda>row. length row < length C) C"
    by (auto simp: list_ex_iff)
  then obtain ev evec where E: "MUSIC_eigenDecomposition C = Inr (ev, evec)"
    by (simp add: MUSIC_eigenDecomposition_def Let_def)
  from MUSIC_eigenDecomposition_units [OF E]
  have evec: "length evec = length C" "\<forall>u\<in>set evec. length u = length C"
    by (auto simp: unit_vector_def)
  let ?noise = "map (\<lambda>i. evec ! (nat ?K + i)) [0..<nat (?M - ?K)]"
  have "\<forall>u\<in>set ?noise. length u = length C"
    using evec K M by auto
  with M have short: "\<not> list_ex (\<lambda>u. int (length u) < ?M) ?noise"
    by (auto simp: list_ex_iff)
  obtain g where g: "\<And>angle. bnd (MUSIC_computeSteeringVector m angle) (\<lambda>steering.
                  if list_ex (\<lambda>u. int (length u) < ?M) ?noise
                  then Inl (Panic IndexOutOfRange)
                  else
                    let denom = fold (\<lambda>k denom.
                                  let proj = fold (\<lambda>n proj. proj + cnj (?noise ! k ! n) * steering ! n)
                                                  [0..<nat ?M] (0::complex)
                                  in denom + cmod proj * cmod proj) [0..<length ?noise] 0
                    in Inr (if denom > 1 / 10 ^ 10 then 10 * log 10 (1 / denom) else 100)) = Inr (g angle)"
  proof -
    have "\<exists>y. bnd (MUSIC_computeSteeringVector m angle) (\<lambda>steering.
                  if list_ex (\<lambda>u. int (length u) < ?M) ?noise
                  then Inl (Panic IndexOutOfRange)
                  else
                    let denom = fold (\<lambda>k denom.
                                  let proj = fold (\<lambda>n proj. proj + cnj (?noise ! k ! n) * steering ! n)
                                                  [0..<nat ?M] (0::complex)
                                  in denom + cmod proj * cmod proj) [0..<length ?noise] 0
                    in Inr (if denom > 1 / 10 ^ 10 then 10 * log 10 (1 / denom) else 100)) = Inr y" for angle
      using K short by (simp add: MUSIC_computeSteeringVector_def make_slice_def Let_def)
    then show ?thesis using that by metis
  qed
  have S: "ComputeSpectrum m C ?grid = Inr (map g ?grid)"
    unfolding ComputeSpectrum_def
    using E K M evec(1)
    by (simp add: make_slice_def Let_def for_each_Inr [where g = g, OF g])
  from MUSIC_findPeaks_returns [OF K(1)] obtain peaks where
    P: "MUSIC_findPeaks (map g ?grid) ?K = Inr peaks" by blast
  from MUSIC_findPeaks_range [OF P] have "\<not> list_ex (\<lambda>p. length ?grid \<le> p) peaks"
    by (auto simp: list_ex_iff)
  with S P show ?thesis
    unfolding MUSIC_EstimateDOA_def Let_def by simp
qed

lemma MUSIC_eigenDecomposition_example:
  "MUSIC_eigenDecomposition [[1, 0], [0, 2]] = Inr ([2, 1 / 2], [[0, 1], [1, 0]])"
proof -
  have u: "[0..<2] = [0, Suc 0]" "[0..<Suc 0] = [0]" "[Suc 0..<2] = [Suc 0]"
    by (simp_all add: upt_rec)
  show ?thesis
    by (simp add: MUSIC_eigenDecomposition_def Let_def tabulate_def u exchange_sort_def exchange_def)
qed

lemma ComputeSpectrum_example:
  "ComputeSpectrum \<lparr>MUSIC.elementCount = 2, numSources = 1, elementSpacing = 0.5\<rparr>
     [[1, 0], [0, 2]] angles = Inr (map (\<lambda>angle. 0) angles)"
proof -
  have u: "[0..<2] = [0, Suc 0]" "[0..<Suc 0] = [0]"
    by (simp_all add: upt_rec)
  show ?thesis
    unfolding ComputeSpectrum_def MUSIC_eigenDecomposition_example
    by (simp add: make_slice_def Let_def u MUSIC_computeSteeringVector_def exp_Complex_0
          for_each_Inr [where g = "\<lambda>angle. 0"])
qed

lemma MUSIC_EstimateDOA_example:
  "MUSIC_EstimateDOA \<lparr>MUSIC.elementCount = 2, numSources = 1, elementSpacing = 0.5\<rparr>
     [[1, 0], [0, 2]] = Inr []"
  unfolding MUSIC_EstimateDOA_def Let_def ComputeSpectrum_example
  by (simp add: map_replicate_const MUSIC_findPeaks_flat)

text \<open>
  C9: whenever \<^verbatim>\<open>musicAlgorithm\<close> returns, its spectrum has 360 points, and at every grid
  angle \<open>\<theta>\<^sub>i = -\<pi>/2 + i\<pi>/360\<close> the value is the reciprocal of the projection energy
  \<open>denom = \<Sum>\<^sub>k |u\<^sub>k\<^sup>H a(\<theta>\<^sub>i)|\<^sup>2\<close> onto the noise subspace exactly when \<open>denom\<close> exceeds
  \<open>10\<^sup>-\<^sup>1\<^sup>0\<close>, and the sentinel \<open>10\<^sup>1\<^sup>0\<close> otherwise; so every value lies in \<open>(0, 10\<^sup>1\<^sup>0]\<close>.
\<close>

theorem musicAlgorithm_spectrum_floor:
  assumes "musicAlgorithm data params = Inr (spectrum, angles)"
  shows "\<exists>X covMatrix eigenvalues eigenvectors U.
           generateReceivedSignal data params = Inr X \<and>
           Estimator_computeCovarianceMatrix X = Inr covMatrix \<and>
           eigenDecomposition covMatrix = Inr (eigenvalues, eigenvectors) \<and>
           extractNoiseSubspace eigenvectors (DOAParams.NumSources params) = Inr U \<and>
           length spectrum = 360 \<and>
           (\<forall>i<360.
              let denom = projection_energy (nat (DOAParams.ElementCount params)) U
                            (- pi / 2 + real i * pi / 360)
              in (1 / 10 ^ 10 < denom \<longrightarrow> spectrum ! i = 1 / denom) \<and>
                 (denom \<le> 1 / 10 ^ 10 \<longrightarrow> spectrum ! i = 10 ^ 10) \<and>
                 0 < spectrum ! i \<and> spectrum ! i \<le> 10 ^ 10)"
proof -
  from musicAlgorithm_Inr [OF assms] obtain X covMatrix eigenvalues eigenvectors U where
    chain: "generateReceivedSignal data params = Inr X"
      "Estimator_computeCovarianceMatrix X = Inr covMatrix"
      "eigenDecomposition covMatrix = Inr (eigenvalues, eigenvectors)"
      "extractNoiseSubspace eigenvectors (DOAParams.NumSources params) = Inr U"
    and spectrum: "spectrum = music_spectrum (DOAParams.ElementCount params) U"
    by blast
  have "(1 / 10 ^ 10 < d \<longrightarrow> (if d > 1 / 10 ^ 10 then 1 / d else 10 ^ 10) = 1 / d) \<and>
        (d \<le> 1 / 10 ^ 10 \<longrightarrow> (if d > 1 / 10 ^ 10 then 1 / d else 10 ^ 10) = 10 ^ 10) \<and>
        0 < (if d > 1 / 10 ^ 10 then 1 / d else 10 ^ 10) \<and>
        (if d > 1 / 10 ^ 10 then 1 / d else 10 ^ 10) \<le> 10 ^ 10" for d :: real
  proof (cases "d > 1 / 10 ^ 10")
    case True
    then have "0 < d" by (simp add: order_less_trans [of 0 "1 / 10 ^ 10" d])
    from True have "1 / d \<le> 1 / (1 / 10 ^ 10)"
      by (intro divide_left_mono) simp_all
    with True \<open>0 < d\<close> show ?thesis by simp
  next
    case False
    then show ?thesis by simp
  qed
  note bounds = this
  have "\<forall>i<360.
              let denom = projection_energy (nat (DOAParams.ElementCount params)) U
                            (- pi / 2 + real i * pi / 360)
              in (1 / 10 ^ 10 < denom \<longrightarrow> spectrum ! i = 1 / denom) \<and>
                 (denom \<le> 1 / 10 ^ 10 \<longrightarrow> spectrum ! i = 10 ^ 10) \<and>
                 0 < spectrum ! i \<and> spectrum ! i \<le> 10 ^ 10"
  proof (intro allI impI)
    fix i :: nat assume "i < 360"
    from music_spectrum_nth [OF this, of "DOAParams.ElementCount params" U]
      bounds [of "projection_energy (nat (DOAParams.ElementCount params)) U
                            (- pi / 2 + real i * pi / 360)"]
    show "let denom = projection_energy (nat (DOAParams.ElementCount params)) U
                            (- pi / 2 + real i * pi / 360)
              in (1 / 10 ^ 10 < denom \<longrightarrow> spectrum ! i = 1 / denom) \<and>
                 (denom \<le> 1 / 10 ^ 10 \<longrightarrow> spectrum ! i = 10 ^ 10) \<and>
                 0 < spectrum ! i \<and> spectrum ! i \<le> 10 ^ 10"
      unfolding spectrum Let_def by presburger
  qed
  with chain spectrum show ?thesis
    by (intro exI [of _ X] exI [of _ covMatrix] exI [of _ eigenvalues] exI [of _ eigenvectors]
          exI [of _ U]) simp
qed

text \<open>
  C2, amended: both MUSIC entry points, \<^verbatim>\<open>musicAlgorithm\<close> (for \<open>M \<ge> 1\<close> elements,
  \<open>0 \<le> K \<le> M\<close> sources and non-empty data) and \<^verbatim>\<open>MUSIC.EstimateDOA\<close> (for a square
  covariance matrix with at least \<open>M\<close> rows and \<open>0 \<le> K \<le> M\<close>), return; whenever they
  return, the angles are those of \<^verbatim>\<open>findPeaks\<close> on the 360-point spectrum; and
  \<^verbatim>\<open>findPeaks\<close> returns the grid angles of the strict local maxima of the spectrum, sorted by
  descending peak value and cut to the first \<open>K\<close>: \<open>min(K, P)\<close> angles, where \<open>P\<close> is the
  number of strict local maxima, with no fallback angle added when \<open>P < K\<close>.
\<close>

theorem MUSIC_top_peaks_only:
  "(1 \<le> DOAParams.ElementCount params \<and> 0 \<le> DOAParams.NumSources params \<and>
    DOAParams.NumSources params \<le> DOAParams.ElementCount params \<and>
    0 \<le> DOAParams.SnapshotLength params \<and> data \<noteq> []
      \<longrightarrow> (\<exists>spectrum angles. musicAlgorithm data params = Inr (spectrum, angles))) \<and>
   (\<forall>spectrum angles. musicAlgorithm data params = Inr (spectrum, angles) \<longrightarrow>
      length spectrum = 360 \<and>
      findPeaks spectrum (DOAParams.NumSources params) = Inr angles) \<and>
   (list_all (\<lambda>row. length row = length C) C \<and> 0 \<le> MUSIC.numSources m \<and>
    MUSIC.numSources m \<le> MUSIC.elementCount m \<and> MUSIC.elementCount m \<le> int (length C)
      \<longrightarrow> (\<exists>angles. MUSIC_EstimateDOA m C = Inr angles)) \<and>
   (\<forall>angles. MUSIC_EstimateDOA m C = Inr angles \<longrightarrow>
      (\<exists>spectrum. ComputeSpectrum m C (map (\<lambda>i. - pi / 2 + real i * pi / 360) [0..<360])
                     = Inr spectrum \<and>
                  length spectrum = 360 \<and>
                  findPeaks spectrum (MUSIC.numSources m) = Inr angles)) \<and>
   (\<forall>spectrum K angles. findPeaks spectrum K = Inr angles \<longrightarrow>
      0 \<le> K \<and>
      length angles = min (nat K) (length (strict_local_maxima spectrum)) \<and>
      (\<exists>ps. mset ps = mset (map (\<lambda>i. \<lparr>peak_index = i, peak_value = spectrum ! i\<rparr>)
                                 (strict_local_maxima spectrum)) \<and>
            sorted_wrt (\<lambda>p q. peak_value q \<le> peak_value p) ps \<and>
            angles = map (\<lambda>p. - pi / 2 + real (peak_index p) * pi / real (length spectrum))
                         (take (nat K) ps)))"
proof (intro conjI allI impI)
  assume "1 \<le> DOAParams.ElementCount params \<and> 0 \<le> DOAParams.NumSources params \<and>
    DOAParams.NumSources params \<le> DOAParams.ElementCount params \<and>
    0 \<le> DOAParams.SnapshotLength params \<and> data \<noteq> []"
  then show "\<exists>spectrum angles. musicAlgorithm data params = Inr (spectrum, angles)"
    using musicAlgorithm_flat [of params data] by blast
next
  fix spectrum angles
  assume r: "musicAlgorithm data params = Inr (spectrum, angles)"
  from musicAlgorithm_Inr [OF r] obtain U where
    s: "spectrum = music_spectrum (DOAParams.ElementCount params) U"
    and f: "findPeaks spectrum (DOAParams.NumSources params) = Inr angles"
    by blast
  from s show "length spectrum = 360" by simp
  from f show "findPeaks spectrum (DOAParams.NumSources params) = Inr angles" .
next
  assume h: "list_all (\<lambda>row. length row = length C) C \<and> 0 \<le> MUSIC.numSources m \<and>
    MUSIC.numSources m \<le> MUSIC.elementCount m \<and> MUSIC.elementCount m \<le> int (length C)"
  then have "\<forall>row\<in>set C. length row = length C" by (simp add: list_all_iff)
  with h show "\<exists>angles. MUSIC_EstimateDOA m C = Inr angles"
    by (intro MUSIC_EstimateDOA_returns) simp_all
next
  fix angles assume "MUSIC_EstimateDOA m C = Inr angles"
  from MUSIC_EstimateDOA_Inr [OF this]
  show "\<exists>spectrum. ComputeSpectrum m C (map (\<lambda>i. - pi / 2 + real i * pi / 360) [0..<360])
                     = Inr spectrum \<and>
                  length spectrum = 360 \<and>
                  findPeaks spectrum (MUSIC.numSources m) = Inr angles" .
next
  fix spectrum :: "real list" and K angles
  assume f: "findPeaks spectrum K = Inr angles"
  from findPeaks_Inr [OF f] show "0 \<le> K" by blast
  from findPeaks_length [OF f]
  show "length angles = min (nat K) (length (strict_local_maxima spectrum))" .
  from findPeaks_Inr [OF f]
  show "\<exists>ps. mset ps = mset (map (\<lambda>i. \<lparr>peak_index = i, peak_value = spectrum ! i\<rparr>)
                                 (strict_local_maxima spectrum)) \<and>
            sorted_wrt (\<lambda>p q. peak_value q \<le> peak_value p) ps \<and>
            angles = map (\<lambda>p. - pi / 2 + real (peak_index p) * pi / real (length spectrum))
                         (take (nat K) ps)"
    by blast
qed

text \<open>
  C2, as stated: exactly \<open>K\<close> angles are returned. With two elements and one source
  (and also with one element and one source) the spectrum of \<^verbatim>\<open>musicAlgorithm\<close> has no
  strict local maximum and the estimate is empty although \<open>K = 1\<close>; so is the estimate of
  \<^verbatim>\<open>MUSIC.EstimateDOA\<close> for the covariance matrix \<open>diag(1, 2)\<close>.
\<close>

theorem MUSIC_no_padding_counterexample:
  "musicAlgorithm [1] \<lparr>DOAParams.ElementCount = 2, NumSources = 1, SnapshotLength = 1,
      Method = ''MUSIC'', SearchRangeMin = 0, SearchRangeMax = 0, SearchStep = 0\<rparr>
     = Inr (replicate 360 1, []) \<and>
   musicAlgorithm [1] \<lparr>DOAParams.ElementCount = 1, NumSources = 1, SnapshotLength = 1,
      Method = ''MUSIC'', SearchRangeMin = 0, SearchRangeMax = 0, SearchStep = 0\<rparr>
     = Inr (replicate 360 (10 ^ 10), []) \<and>
   MUSIC_EstimateDOA \<lparr>MUSIC.elementCount = 2, numSources = 1, elementSpacing = 0.5\<rparr>
     [[1, 0], [0, 2]] = Inr []"
  using musicAlgorithm_flat [of "\<lparr>DOAParams.ElementCount = 2, NumSources = 1, SnapshotLength = 1,
      Method = ''MUSIC'', SearchRangeMin = 0, SearchRangeMax = 0, SearchStep = 0\<rparr>" "[1]"]
    musicAlgorithm_flat [of "\<lparr>DOAParams.ElementCount = 1, NumSources = 1, SnapshotLength = 1,
      Method = ''MUSIC'', SearchRangeMin = 0, SearchRangeMax = 0, SearchStep = 0\<rparr>" "[1]"]
    MUSIC_EstimateDOA_example
  by simp

theorem MUSIC_top_peaks_only_witness:
  "musicAlgorithm [1] \<lparr>DOAParams.ElementCount = 2, NumSources = 1, SnapshotLength = 1,
      Method = ''MUSIC'', SearchRangeMin = 0, SearchRangeMax = 0, SearchStep = 0\<rparr>
     = Inr (replicate 360 1, []) \<and>
   findPeaks (replicate 360 1) 1 = Inr [] \<and>
   list_all (\<lambda>row. length row = length [[1, 0], [0, 2::complex]]) [[1, 0], [0, 2::complex]] \<and>
   (\<exists>angles. MUSIC_EstimateDOA \<lparr>MUSIC.elementCount = 2, numSources = 1, elementSpacing = 0.5\<rparr>
               [[1, 0], [0, 2]] = Inr angles) \<and>
   findPeaks [0, 2, 0, 3, 0] 1 = Inr [- pi / 2 + 3 * pi / 5] \<and>
   length [- pi / 2 + 3 * pi / 5] = min (nat 1) (length (strict_local_maxima [0, 2, 0, 3, 0]))"
proof -
  let ?p = "\<lparr>DOAParams.ElementCount = 2, NumSources = 1, SnapshotLength = 1,
      Method = ''MUSIC'', SearchRangeMin = 0, SearchRangeMax = 0, SearchStep = 0\<rparr>"
  let ?m = "\<lparr>MUSIC.elementCount = 2, numSources = 1, elementSpacing = 0.5\<rparr>"
  have r: "musicAlgorithm [1] ?p = Inr (replicate 360 1, [])"
    using musicAlgorithm_flat [of ?p "[1]"] by simp
  note inst = MUSIC_top_peaks_only [of ?p "[1]" "[[1, 0], [0, 2]]" ?m]
  from inst r have a: "findPeaks (replicate 360 1) 1 = Inr []" by auto
  have sq: "list_all (\<lambda>row. length row = length [[1, 0], [0, 2::complex]]) [[1, 0], [0, 2::complex]]"
    by simp
  with inst have c: "\<exists>angles. MUSIC_EstimateDOA ?m [[1, 0], [0, 2]] = Inr angles"
    by simp
  from inst findPeaks_example
  have b: "length [- pi / 2 + 3 * pi / 5] = min (nat 1) (length (strict_local_maxima [0, 2, 0, 3, 0]))"
    by blast
  from r a sq c b findPeaks_example show ?thesis by blast
qed

theorem musicAlgorithm_spectrum_floor_witness:
  "musicAlgorithm [1] \<lparr>DOAParams.ElementCount = 1, NumSources = 1, SnapshotLength = 1,
      Method = ''MUSIC'', SearchRangeMin = 0, SearchRangeMax = 0, SearchStep = 0\<rparr>
     = Inr (replicate 360 (10 ^ 10), []) \<and>
   (\<exists>X covMatrix eigenvalues eigenvectors U.
           generateReceivedSignal [1] \<lparr>DOAParams.ElementCount = 1, NumSources = 1, SnapshotLength = 1,
      Method = ''MUSIC'', SearchRangeMin = 0, SearchRangeMax = 0, SearchStep = 0\<rparr> = Inr X \<and>
           Estimator_computeCovarianceMatrix X = Inr covMatrix \<and>
           eigenDecomposition covMatrix = Inr (eigenvalues, eigenvectors) \<and>
           extractNoiseSubspace eigenvectors (DOAParams.NumSources \<lparr>DOAParams.ElementCount = 1, NumSources = 1, SnapshotLength = 1,
      Method = ''MUSIC'', SearchRangeMin = 0, SearchRangeMax = 0, SearchStep = 0\<rparr>) = Inr U \<and>
           length (replicate 360 ((10::real) ^ 10)) = 360 \<and>
           (\<forall>i<360.
              let denom = projection_energy (nat (DOAParams.ElementCount \<lparr>DOAParams.ElementCount = 1, NumSources = 1, SnapshotLength = 1,
      Method = ''MUSIC'', SearchRangeMin = 0, SearchRangeMax = 0, SearchStep = 0\<rparr>)) U
                            (- pi / 2 + real i * pi / 360)
              in (1 / 10 ^ 10 < denom \<longrightarrow> replicate 360 ((10::real) ^ 10) ! i = 1 / denom) \<and>
                 (denom \<le> 1 / 10 ^ 10 \<longrightarrow> replicate 360 ((10::real) ^ 10) ! i = 10 ^ 10) \<and>
                 0 < replicate 360 ((10::real) ^ 10) ! i \<and>
                 replicate 360 ((10::real) ^ 10) ! i \<le> 10 ^ 10))"
proof -
  have r: "musicAlgorithm [1] \<lparr>DOAParams.ElementCount = 1, NumSources = 1, SnapshotLength = 1,
      Method = ''MUSIC'', SearchRangeMin = 0, SearchRangeMax = 0, SearchStep = 0\<rparr> = Inr (replicate 360 (10 ^ 10), [])"
    using musicAlgorithm_flat [of "\<lparr>DOAParams.ElementCount = 1, NumSources = 1, SnapshotLength = 1,
      Method = ''MUSIC'', SearchRangeMin = 0, SearchRangeMax = 0, SearchStep = 0\<rparr>" "[1]"] by simp
  show ?thesis
    by (rule conjI [OF r musicAlgorithm_spectrum_floor [OF r]])
qed

section \<open>The random source, test signals and Monte Carlo trials\<close>

lemma randFloat64_value: "randFloat64 = 123456789 / 2 ^ 30"
  by (simp add: randFloat64_def go_trunc_def go_rem_def)

lemma randNorm_loop_value: "randNorm_loop randFloat64 = Some randFloat64"
  by (subst randNorm_loop.simps) (simp add: randFloat64_value)

lemma randNorm_value:
  "randNorm = Some (sqrt (- 2 * ln (123456789 / 2 ^ 30)) * cos (2 * pi * (123456789 / 2 ^ 30)))"
  by (simp add: randNorm_def Let_def randNorm_loop_value) (simp add: randFloat64_value)

lemma fold_clean:
  "fold (\<lambda>k acc. acc + exp (Complex 0 (2 * pi * real m * d * sin (trueAngles ! k)))
                        * exp (Complex 0 (2 * pi * real t * 0.01))) [0..<K] (0::complex)
   = (\<Sum>k<K. cis (2 * pi * real m * d * sin (trueAngles ! k)) * cis (2 * pi * real t * 0.01))"
  by (simp only: fold_add_sum exp_Complex_0 add_0)

lemma GenerateTestSignal_unfold:
  "GenerateTestSignal config trueAngles snrDB =
     bnd (make_slice (NumAntennas config) ([]::complex list)) (\<lambda>X0.
     bnd (if 0 < NumAntennas config
          then make_slice (ESPRITConfig.SnapshotLength config) (0::complex) else Inr []) (\<lambda>row0.
       if 0 < NumAntennas config \<and> 0 < ESPRITConfig.SnapshotLength config then
         (case randNorm of
            None \<Rightarrow> Inl NoReturn
          | Some r \<Rightarrow>
              Inr (tabulate (nat (NumAntennas config)) (nat (ESPRITConfig.SnapshotLength config))
                     (\<lambda>m t. clean_signal config trueAngles m t
                        + Complex (r * sqrt (1 / (10 powr (snrDB / 10)) / 2))
                                  (r * sqrt (1 / (10 powr (snrDB / 10)) / 2)))))
       else Inr (tabulate (nat (NumAntennas config)) (nat (ESPRITConfig.SnapshotLength config))
                   (clean_signal config trueAngles))))"
  unfolding GenerateTestSignal_def Let_def fold_clean clean_signal_def [abs_def] ..

lemma GenerateTestSignal_Inr:
  assumes "GenerateTestSignal config trueAngles snrDB = Inr X"
  shows "\<exists>r. randNorm = Some r \<and>
             length X = nat (NumAntennas config) \<and>
             (\<forall>m<length X. length (X ! m) = nat (ESPRITConfig.SnapshotLength config) \<and>
                (\<forall>t<length (X ! m).
                   X ! m ! t = clean_signal config trueAngles m t
                     + Complex (r * sqrt (1 / (10 powr (snrDB / 10)) / 2))
                               (r * sqrt (1 / (10 powr (snrDB / 10)) / 2))))"
proof -
  obtain r where r: "randNorm = Some r" using randNorm_value by blast
  let ?M = "NumAntennas config" and ?N = "ESPRITConfig.SnapshotLength config"
  show ?thesis
  proof (cases "0 < ?M \<and> 0 < ?N")
    case True
    with assms have "X = tabulate (nat ?M) (nat ?N) (\<lambda>m t. clean_signal config trueAngles m t
                     + Complex (r * sqrt (1 / (10 powr (snrDB / 10)) / 2))
                               (r * sqrt (1 / (10 powr (snrDB / 10)) / 2)))"
      by (simp add: GenerateTestSignal_unfold make_slice_def r)
    with r show ?thesis by (intro exI [of _ r]) simp
  next
    case False
    with assms have "X = tabulate (nat ?M) (nat ?N) (clean_signal config trueAngles)"
      by (auto simp: GenerateTestSignal_unfold make_slice_def bnd_Inr_iff split: if_splits)
    moreover from False have "nat ?M = 0 \<or> nat ?N = 0" by auto
    ultimately show ?thesis using r by (intro exI [of _ r]) auto
  qed
qed

lemma GenerateTestSignal_returns:
  assumes "0 \<le> NumAntennas config" and "0 \<le> ESPRITConfig.SnapshotLength config"
  shows "\<exists>X. GenerateTestSignal config trueAngles snrDB = Inr X \<and>
             length X = nat (NumAntennas config) \<and>
             list_all (\<lambda>row. length row = nat (ESPRITConfig.SnapshotLength config)) X"
  using assms
  by (auto simp: GenerateTestSignal_unfold make_slice_def randNorm_value tabulate_def list_all_iff)

lemma trials_Inr:
  assumes "EstimateWithPerformance g config trueAngles snr = Inr result"
  shows "trials g config trueAngles snr n st
       = Inr (((\<lambda>a. xadd a (RMSE result)) ^^ n) (fst st),
              snd st + (if xless (RMSE result) 0.1 then int n else 0))"
proof (induction n arbitrary: st)
  case 0
  show ?case by simp
next
  case (Suc n)
  show ?case
    using assms by (simp add: trial_step_def Suc funpow_Suc_right del: funpow.simps)
qed

lemma trials_Error:
  assumes "EstimateWithPerformance g config trueAngles snr = Inl (Error msg)"
  shows "trials g config trueAngles snr n st = Inr st"
  using assms by (induction n arbitrary: st) (simp_all add: trial_step_def)

lemma trials_failure:
  assumes "EstimateWithPerformance g config trueAngles snr = Inl f" and "\<And>msg. f \<noteq> Error msg"
  shows "trials g config trueAngles snr (Suc n) st = Inl f"
  using assms by (cases f) (auto simp: trial_step_def)

lemma replicated_average:
  assumes "0 < n"
  shows "xdiv (((\<lambda>a. xadd a x) ^^ n) (Fin 0)) (real n) = x"
proof (cases x)
  case (Fin a)
  have "((\<lambda>b. xadd b (Fin a)) ^^ k) (Fin c) = Fin (c + real k * a)" for k c
    by (induction k arbitrary: c) (simp_all add: funpow_swap1 algebra_simps)
  with assms Fin show ?thesis by (simp add: fdiv_def)
next
  case PInf
  have "((\<lambda>b. xadd b PInf) ^^ Suc k) (Fin 0) = PInf" for k
    by (induction k) simp_all
  with assms PInf show ?thesis by (cases n) (simp_all del: funpow.simps)
next
  case NInf
  have "((\<lambda>b. xadd b NInf) ^^ Suc k) (Fin 0) = NInf" for k
    by (induction k) simp_all
  with assms NInf show ?thesis by (cases n) (simp_all del: funpow.simps)
next
  case NaN
  have "((\<lambda>b. xadd b NaN) ^^ Suc k) (Fin 0) = NaN" for k
    by (induction k) simp_all
  with assms NaN show ?thesis by (cases n) (simp_all del: funpow.simps)
qed

lemma trials_summary:
  assumes n: "1 \<le> numTrials"
    and t: "trials g config trueAngles snr (nat numTrials) (Fin 0, 0) = Inr (totalRMSE, successCount)"
  shows "\<lparr>Angles = [], RMSE = xdiv totalRMSE (real_of_int numTrials),
          SuccessRate = fdiv (real_of_int successCount) (real_of_int numTrials),
          ProcessingTime = 0, Eigenvalues = []\<rparr>
       = replicated_summary (EstimateWithPerformance g config trueAngles snr)"
proof (cases "EstimateWithPerformance g config trueAngles snr")
  case (Inr result)
  from n have "numTrials = int (nat numTrials)" "0 < nat numTrials" by simp_all
  then obtain k where k: "numTrials = int k" "0 < k" by blast
  from t trials_Inr [OF Inr, of "nat numTrials" "(Fin 0, 0)"]
  have "totalRMSE = ((\<lambda>a. xadd a (RMSE result)) ^^ k) (Fin 0)"
    and "successCount = (if xless (RMSE result) 0.1 then int k else 0)"
    by (simp_all add: k)
  with k show ?thesis
    by (simp add: replicated_average [OF k(2)] replicated_summary_def Inr fdiv_def)
next
  case (Inl f)
  show ?thesis
  proof (cases f)
    case (Error msg)
    with Inl t trials_Error [of g config trueAngles snr msg "nat numTrials" "(Fin 0, 0)"]
    have "totalRMSE = Fin 0" "successCount = 0" by simp_all
    with n Inl show ?thesis by (simp add: replicated_summary_def fdiv_def)
  next
    case (Panic p)
    from n obtain k where "nat numTrials = Suc k" by (cases "nat numTrials") auto
    with t trials_failure [of g config trueAngles snr f k "(Fin 0, 0)"] Inl Panic
    show ?thesis by simp
  next
    case NoReturn
    from n obtain k where "nat numTrials = Suc k" by (cases "nat numTrials") auto
    with t trials_failure [of g config trueAngles snr f k "(Fin 0, 0)"] Inl NoReturn
    show ?thesis by simp
  qed
qed

lemma MonteCarloSimulation_loop_Inr:
  assumes "1 \<le> numTrials"
    and "MonteCarloSimulation_loop g config trueAngles snrRange numTrials results0 = Inr results"
  shows "results = (\<lambda>s. if s \<in> set snrRange
                         then Some (replicated_summary (EstimateWithPerformance g config trueAngles s))
                         else results0 s)"
  using assms(2)
proof (induction snrRange arbitrary: results0)
  case Nil
  then show ?case by simp
next
  case (Cons snr snrRange)
  from Cons.prems obtain totalRMSE successCount where
    t: "trials g config trueAngles snr (nat numTrials) (Fin 0, 0) = Inr (totalRMSE, successCount)"
    by (cases "trials g config trueAngles snr (nat numTrials) (Fin 0, 0)") auto
  from Cons.prems t
  have "MonteCarloSimulation_loop g config trueAngles snrRange numTrials
          (results0(snr \<mapsto> replicated_summary (EstimateWithPerformance g config trueAngles snr)))
        = Inr results"
    by (simp add: Let_def trials_summary [OF assms(1) t])
  from Cons.IH [OF this] show ?case
    by (auto simp: fun_eq_iff)
qed

text \<open>
  C10: \<^verbatim>\<open>randFloat64\<close> is the constant \<open>123456789 / 2\<^sup>3\<^sup>0\<close>, so the loop of \<^verbatim>\<open>randNorm\<close>
  never runs and \<^verbatim>\<open>randNorm\<close> returns one fixed value. \<^verbatim>\<open>GenerateTestSignal\<close> returns for
  non-negative dimensions, and every entry of its result is the noise-free signal plus one
  and the same complex number. With at least one trial, \<^verbatim>\<open>MonteCarloSimulation\<close> stores for
  every SNR of its range what a single trial determines: the RMSE of that trial as the
  average and a success rate of 0 or 1 (zeros when the trial returns an error).
\<close>

theorem deterministic_test_signal_and_trials:
  "randFloat64 = 123456789 / 2 ^ 30 \<and>
   randNorm = Some (sqrt (- 2 * ln (123456789 / 2 ^ 30)) * cos (2 * pi * (123456789 / 2 ^ 30))) \<and>
   (0 \<le> NumAntennas config \<and> 0 \<le> ESPRITConfig.SnapshotLength config \<longrightarrow>
      (\<exists>X. GenerateTestSignal config trueAngles snrDB = Inr X)) \<and>
   (\<forall>X. GenerateTestSignal config trueAngles snrDB = Inr X \<longrightarrow>
      (\<exists>z. \<forall>m<length X. \<forall>t<length (X ! m).
             X ! m ! t = clean_signal config trueAngles m t + z)) \<and>
   (\<forall>results. 1 \<le> numTrials \<and>
       MonteCarloSimulation g config trueAngles snrRange numTrials = Inr results \<longrightarrow>
      (\<forall>snr. results snr =
         (if snr \<in> set snrRange
          then Some (replicated_summary (EstimateWithPerformance g config trueAngles snr))
          else None)))"
proof (intro conjI allI impI)
  show "randFloat64 = 123456789 / 2 ^ 30" by (rule randFloat64_value)
  show "randNorm = Some (sqrt (- 2 * ln (123456789 / 2 ^ 30)) * cos (2 * pi * (123456789 / 2 ^ 30)))"
    by (rule randNorm_value)
next
  assume "0 \<le> NumAntennas config \<and> 0 \<le> ESPRITConfig.SnapshotLength config"
  then show "\<exists>X. GenerateTestSignal config trueAngles snrDB = Inr X"
    using GenerateTestSignal_returns [of config trueAngles snrDB] by blast
next
  fix X assume "GenerateTestSignal config trueAngles snrDB = Inr X"
  from GenerateTestSignal_Inr [OF this]
  show "\<exists>z. \<forall>m<length X. \<forall>t<length (X ! m). X ! m ! t = clean_signal config trueAngles m t + z"
    by blast
next
  fix results snr
  assume "1 \<le> numTrials \<and> MonteCarloSimulation g config trueAngles snrRange numTrials = Inr results"
  then have h: "1 \<le> numTrials"
    "MonteCarloSimulation_loop g config trueAngles snrRange numTrials Map.empty = Inr results"
    by (simp_all add: MonteCarloSimulation_def)
  from MonteCarloSimulation_loop_Inr [OF h]
  show "results snr =
         (if snr \<in> set snrRange
          then Some (replicated_summary (EstimateWithPerformance g config trueAngles snr))
          else None)"
    by simp
qed

lemma EstimateWithPerformance_three_two:
  "\<exists>msg. EstimateWithPerformance diagonal_gonum
     \<lparr>NumAntennas = 3, NumSources = 2, ElementSpacing = 0.5,
      SnapshotLength = 1, SampleRate = 0, CarrierFreq = 0\<rparr> [0, 1] 10 = Inl (Error msg)"
proof -
  let ?c = "\<lparr>NumAntennas = 3, NumSources = 2, ElementSpacing = 0.5,
      SnapshotLength = 1, SampleRate = 0, CarrierFreq = 0\<rparr>"
  from GenerateTestSignal_returns [of ?c "[0, 1]" 10] obtain X where
    X: "GenerateTestSignal ?c [0, 1] 10 = Inr X" "length X = 3" "list_all (\<lambda>row. length row = 1) X"
    by auto
  from X(2,3) have rect: "list_all (\<lambda>row. length row = length (X ! 0)) X"
    by (cases X) (auto simp: list_all_iff)
  have "EstimateDOA diagonal_gonum ?c X
          = Inl (Error ''esprit core computation failed: signal subspace too small'')
       \<or> EstimateDOA diagonal_gonum ?c X
          = Inl (Error ''extract signal subspace failed: SVD factorization failed'')"
  proof (rule EstimateDOA_error)
    show "2 \<le> ESPRITConfig.NumSources ?c" "ESPRITConfig.NumSources ?c < NumAntennas ?c"
      "int (length X) = NumAntennas ?c"
      using X(2) by simp_all
    show "list_all (\<lambda>row. length row = length (X ! 0)) X" by (rule rect)
    show "length A \<le> length vals" if "Eigen_Values diagonal_gonum A = Some vals" for A vals
      using that by (auto simp: diagonal_gonum_def)
    show "covers u (length A) (length A)" if "SVD_U diagonal_gonum A = Some u" for A u
      using that by (auto simp: diagonal_gonum_def covers_tabulate)
  qed
  with X(1) show ?thesis
    by (auto simp: EstimateWithPerformance_def)
qed

theorem deterministic_test_signal_and_trials_witness:
  "(0::int) \<le> 3 \<and> (0::int) \<le> 1 \<and> (1::int) \<le> 3 \<and>
   MonteCarloSimulation diagonal_gonum
     \<lparr>NumAntennas = 3, NumSources = 2, ElementSpacing = 0.5,
      SnapshotLength = 1, SampleRate = 0, CarrierFreq = 0\<rparr> [0, 1] [10] 3
     = Inr [10 \<mapsto> \<lparr>Angles = [], RMSE = Fin 0, SuccessRate = Fin 0,
                     ProcessingTime = 0, Eigenvalues = []\<rparr>] \<and>
   (\<exists>X z. GenerateTestSignal
            \<lparr>NumAntennas = 3, NumSources = 2, ElementSpacing = 0.5,
             SnapshotLength = 1, SampleRate = 0, CarrierFreq = 0\<rparr> [0, 1] 10 = Inr X \<and>
          X ! 0 ! 0 = clean_signal
            \<lparr>NumAntennas = 3, NumSources = 2, ElementSpacing = 0.5,
             SnapshotLength = 1, SampleRate = 0, CarrierFreq = 0\<rparr> [0, 1] 0 0 + z \<and>
          X ! 2 ! 0 = clean_signal
            \<lparr>NumAntennas = 3, NumSources = 2, ElementSpacing = 0.5,
             SnapshotLength = 1, SampleRate = 0, CarrierFreq = 0\<rparr> [0, 1] 2 0 + z)"
proof -
  let ?c = "\<lparr>NumAntennas = 3, NumSources = 2, ElementSpacing = 0.5,
      SnapshotLength = 1, SampleRate = 0, CarrierFreq = 0\<rparr>"
  note inst = deterministic_test_signal_and_trials [of ?c "[0, 1]" 10 3 diagonal_gonum "[10]"]
  from EstimateWithPerformance_three_two obtain msg where
    e: "EstimateWithPerformance diagonal_gonum ?c [0, 1] 10 = Inl (Error msg)" by blast
  have mc: "MonteCarloSimulation diagonal_gonum ?c [0, 1] [10] 3
     = Inr [10 \<mapsto> \<lparr>Angles = [], RMSE = Fin 0, SuccessRate = Fin 0,
                     ProcessingTime = 0, Eigenvalues = []\<rparr>]"
    unfolding MonteCarloSimulation_def
    by (simp only: MonteCarloSimulation_loop.simps trials_Error [OF e] bnd_Inr prod.case Let_def)
       (simp add: fdiv_def)
  from GenerateTestSignal_returns [of ?c "[0, 1]" 10] obtain X where
    X: "GenerateTestSignal ?c [0, 1] 10 = Inr X" "length X = 3" "list_all (\<lambda>row. length row = 1) X"
    by auto
  from inst X(1) obtain z where
    z: "\<forall>m<length X. \<forall>t<length (X ! m). X ! m ! t = clean_signal ?c [0, 1] m t + z"
    by blast
  from X(2,3) have "length (X ! 0) = 1" "length (X ! 2) = 1"
    by (auto simp: list_all_length)
  with z X(2) have "X ! 0 ! 0 = clean_signal ?c [0, 1] 0 0 + z" "X ! 2 ! 0 = clean_signal ?c [0, 1] 2 0 + z"
    by auto
  with mc X(1) show ?thesis by auto
qed

end
